theory Spec2Isabelle
  imports Complex_Main "HOL-Library.Char_ord"
begin

section \<open>The JavaScript values the two providers handle\<close>

text \<open>
  The session provider (\<^verbatim>\<open>AuthProvider\<close>) and the request provider
  (\<^verbatim>\<open>FetchProvider\<close>) are React components written in JavaScript. Their code is
  short; most of what it does is done by the language: truthiness tests (\<^verbatim>\<open>!x\<close>,
  \<^verbatim>\<open>x ? a : b\<close>), the comparison \<^verbatim>\<open><\<close> with its conversion to a number, the
  conversion to text that \<^verbatim>\<open>localStorage.setItem\<close> applies, \<^verbatim>\<open>JSON.parse\<close> and
  \<^verbatim>\<open>JSON.stringify\<close>. This section models those after ECMA-262, on tree-shaped data:
  no functions, no cycles, no accessors and no \<^verbatim>\<open>toJSON\<close> methods.

  Numbers are exact decimals \<open>m \<times> 10\<^sup>e\<close> with the three special values; the binary
  rounding of IEEE doubles is not modelled. Strings are byte strings: a JavaScript
  string is identified with its bytes, which is exact for ASCII text, and the white
  space that the conversion of a text to a number drops is the ASCII white space.
\<close>

datatype jsnum = NaN | PosInf | NegInf | Dec int int

datatype jsval =
    Undefined
  | Null
  | Bool bool
  | Num jsnum
  | Str string
  | Arr "jsval list"
  | Obj "(string \<times> jsval) list"

definition dec_val :: "int \<Rightarrow> int \<Rightarrow> rat" where
  "dec_val m e = (if 0 \<le> e then of_int m * 10 ^ nat e else of_int m / 10 ^ nat (- e))"

text \<open>\<open>x < y\<close> on numbers, for a finite left operand: false against \<^verbatim>\<open>NaN\<close>.\<close>

fun num_less :: "rat \<Rightarrow> jsnum \<Rightarrow> bool" where
  "num_less x NaN = False"
| "num_less x PosInf = True"
| "num_less x NegInf = False"
| "num_less x (Dec m e) = (x < dec_val m e)"

text \<open>\<^verbatim>\<open>ToBoolean\<close>: the falsy values are \<^verbatim>\<open>undefined\<close>, \<^verbatim>\<open>null\<close>, \<^verbatim>\<open>false\<close>,
  \<^verbatim>\<open>0\<close>, \<^verbatim>\<open>NaN\<close> and the empty string.\<close>

fun ToBoolean :: "jsval \<Rightarrow> bool" where
  "ToBoolean Undefined = False"
| "ToBoolean Null = False"
| "ToBoolean (Bool b) = b"
| "ToBoolean (Num NaN) = False"
| "ToBoolean (Num (Dec m e)) = (m \<noteq> 0)"
| "ToBoolean (Num n) = True"
| "ToBoolean (Str s) = (s \<noteq> [])"
| "ToBoolean (Arr xs) = True"
| "ToBoolean (Obj ps) = True"

subsection \<open>Characters and digits\<close>

definition is_digit :: "char \<Rightarrow> bool" where
  "is_digit c = (CHR ''0'' \<le> c \<and> c \<le> CHR ''9'')"

definition digit_val :: "char \<Rightarrow> nat" where
  "digit_val c = of_char c - 48"

definition digits_val :: "string \<Rightarrow> nat" where
  "digits_val s = foldl (\<lambda>n c. 10 * n + digit_val c) 0 s"

definition all_digits :: "string \<Rightarrow> bool" where
  "all_digits s = list_all is_digit s"

definition digit_char :: "nat \<Rightarrow> char" where
  "digit_char d = ''0123456789'' ! d"

fun show_nat :: "nat \<Rightarrow> string" where
  "show_nat n = (if n < 10 then [digit_char n] else show_nat (n div 10) @ [digit_char (n mod 10)])"

declare show_nat.simps [simp del]

text \<open>Everything before the first character satisfying \<open>P\<close>, and what follows that
  character when there is one.\<close>

definition split_on :: "(char \<Rightarrow> bool) \<Rightarrow> string \<Rightarrow> string \<times> string option" where
  "split_on P s =
     (takeWhile (\<lambda>c. \<not> P c) s,
      case dropWhile (\<lambda>c. \<not> P c) s of [] \<Rightarrow> None | _ # r \<Rightarrow> Some r)"

text \<open>An exponent: an optional sign and at least one digit.\<close>

definition signed_int :: "string \<Rightarrow> int option" where
  "signed_int s =
     (case s of
        [] \<Rightarrow> None
      | c # r \<Rightarrow>
          if c = CHR ''-'' then (if r \<noteq> [] \<and> all_digits r then Some (- int (digits_val r)) else None)
          else if c = CHR ''+'' then (if r \<noteq> [] \<and> all_digits r then Some (int (digits_val r)) else None)
          else if all_digits s then Some (int (digits_val s)) else None)"

definition exponent_part :: "string option \<Rightarrow> int option" where
  "exponent_part ex = (case ex of None \<Rightarrow> Some 0 | Some t \<Rightarrow> signed_int t)"

subsection \<open>Numbers to text and text to numbers\<close>

text \<open>\<^verbatim>\<open>Number::toString\<close> (radix 10). With \<open>s\<close> the significant digits of the
  number, \<open>k\<close> their count and \<open>n\<close> the position of the decimal point, the number is
  printed plainly when \<open>-6 < n \<le> 21\<close> and with an exponent otherwise.\<close>

definition Number_toString :: "jsnum \<Rightarrow> string" where
  "Number_toString x =
     (case x of
        NaN \<Rightarrow> ''NaN''
      | PosInf \<Rightarrow> ''Infinity''
      | NegInf \<Rightarrow> ''-Infinity''
      | Dec m e \<Rightarrow>
          if m = 0 then ''0''
          else
            let ds = show_nat (nat \<bar>m\<bar>);
                z = length (takeWhile (\<lambda>c. c = CHR ''0'') (rev ds));
                s = take (length ds - z) ds;
                k = int (length s);
                n = k + e + int z;
                body =
                  (if k \<le> n \<and> n \<le> 21 then s @ replicate (nat (n - k)) CHR ''0''
                   else if 0 < n \<and> n \<le> 21 then take (nat n) s @ ''.'' @ drop (nat n) s
                   else if - 6 < n \<and> n \<le> 0 then ''0.'' @ replicate (nat (- n)) CHR ''0'' @ s
                   else
                     (if k = 1 then s else hd s # ''.'' @ tl s)
                     @ ''e'' @ (if n - 1 < 0 then ''-'' else ''+'') @ show_nat (nat \<bar>n - 1\<bar>))
            in (if m < 0 then ''-'' else []) @ body)"

definition is_ws :: "char \<Rightarrow> bool" where
  "is_ws c = (c \<in> set [CHR 0x09, CHR 0x0A, CHR 0x0B, CHR 0x0C, CHR 0x0D, CHR '' ''])"

definition trim :: "string \<Rightarrow> string" where
  "trim s = rev (dropWhile is_ws (rev (dropWhile is_ws s)))"

definition is_hex :: "char \<Rightarrow> bool" where
  "is_hex c = (is_digit c \<or> (CHR ''a'' \<le> c \<and> c \<le> CHR ''f'') \<or> (CHR ''A'' \<le> c \<and> c \<le> CHR ''F''))"

definition hex_val :: "char \<Rightarrow> nat" where
  "hex_val c =
     (if is_digit c then digit_val c
      else if CHR ''a'' \<le> c then of_char c - 87
      else of_char c - 55)"

text \<open>A literal in base \<open>b\<close>: at least one digit, all of them below \<open>b\<close>.\<close>

definition radix_literal :: "nat \<Rightarrow> string \<Rightarrow> jsnum" where
  "radix_literal b s =
     (if s \<noteq> [] \<and> list_all (\<lambda>c. is_hex c \<and> hex_val c < b) s
      then Dec (int (foldl (\<lambda>n c. b * n + hex_val c) 0 s)) 0
      else NaN)"

text \<open>\<^verbatim>\<open>StrUnsignedDecimalLiteral\<close> without \<^verbatim>\<open>Infinity\<close>: digits, an optional
  fraction and an optional exponent; one side of the point may be empty.\<close>

definition unsigned_decimal :: "string \<Rightarrow> (int \<times> int) option" where
  "unsigned_decimal s =
     (let (mant, ex) = split_on (\<lambda>c. c = CHR ''e'' \<or> c = CHR ''E'') s;
          (ip, fp) = split_on (\<lambda>c. c = CHR ''.'') mant
      in case exponent_part ex of
           None \<Rightarrow> None
         | Some x \<Rightarrow>
             (case fp of
                None \<Rightarrow>
                  if ip \<noteq> [] \<and> all_digits ip then Some (int (digits_val ip), x) else None
              | Some f \<Rightarrow>
                  if all_digits ip \<and> all_digits f \<and> (ip \<noteq> [] \<or> f \<noteq> [])
                  then Some (int (digits_val (ip @ f)), x - int (length f))
                  else None))"

definition str_decimal :: "bool \<Rightarrow> string \<Rightarrow> jsnum" where
  "str_decimal neg s =
     (if s = ''Infinity'' then (if neg then NegInf else PosInf)
      else case unsigned_decimal s of
             None \<Rightarrow> NaN
           | Some (m, e) \<Rightarrow> Dec (if neg then - m else m) e)"

text \<open>\<^verbatim>\<open>StringToNumber\<close>: surrounding white space is dropped, the empty text is
  \<open>0\<close>, anything that is not a numeric literal is \<^verbatim>\<open>NaN\<close>.\<close>

definition StringToNumber :: "string \<Rightarrow> jsnum" where
  "StringToNumber s0 =
     (let s = trim s0 in
      if s = [] then Dec 0 0
      else if take 2 s = ''0x'' \<or> take 2 s = ''0X'' then radix_literal 16 (drop 2 s)
      else if take 2 s = ''0o'' \<or> take 2 s = ''0O'' then radix_literal 8 (drop 2 s)
      else if take 2 s = ''0b'' \<or> take 2 s = ''0B'' then radix_literal 2 (drop 2 s)
      else if hd s = CHR ''-'' then str_decimal True (tl s)
      else if hd s = CHR ''+'' then str_decimal False (tl s)
      else str_decimal False s)"

fun join_with :: "string \<Rightarrow> string list \<Rightarrow> string" where
  "join_with sep [] = []"
| "join_with sep [x] = x"
| "join_with sep (x # y # ys) = x @ sep @ join_with sep (y # ys)"

text \<open>\<^verbatim>\<open>ToString\<close>, which \<^verbatim>\<open>localStorage.setItem\<close> applies to the value it stores.
  An array is its elements joined by commas, \<^verbatim>\<open>null\<close> and \<^verbatim>\<open>undefined\<close> elements
  giving the empty text; a plain object is \<^verbatim>\<open>[object Object]\<close>.\<close>

fun ToString :: "jsval \<Rightarrow> string"
  and ToString_elems :: "jsval list \<Rightarrow> string list" where
  "ToString Undefined = ''undefined''"
| "ToString Null = ''null''"
| "ToString (Bool b) = (if b then ''true'' else ''false'')"
| "ToString (Num n) = Number_toString n"
| "ToString (Str s) = s"
| "ToString (Arr xs) = join_with '','' (ToString_elems xs)"
| "ToString (Obj ps) = ''[object Object]''"
| "ToString_elems [] = []"
| "ToString_elems (x # xs) =
     (if x = Undefined \<or> x = Null then [] else ToString x) # ToString_elems xs"

text \<open>\<^verbatim>\<open>ToNumber\<close>: an array or object is first made a primitive, which for plain
  data is its \<^verbatim>\<open>ToString\<close>.\<close>

fun ToNumber :: "jsval \<Rightarrow> jsnum" where
  "ToNumber Undefined = NaN"
| "ToNumber Null = Dec 0 0"
| "ToNumber (Bool b) = Dec (if b then 1 else 0) 0"
| "ToNumber (Num n) = n"
| "ToNumber (Str s) = StringToNumber s"
| "ToNumber (Arr xs) = StringToNumber (ToString (Arr xs))"
| "ToNumber (Obj ps) = StringToNumber (ToString (Obj ps))"

subsection \<open>Objects\<close>

text \<open>An object is the list of its own properties in creation order. Defining a
  property that exists replaces its value where it stands; a new one goes last.\<close>

fun obj_put :: "(string \<times> jsval) list \<Rightarrow> string \<Rightarrow> jsval \<Rightarrow> (string \<times> jsval) list" where
  "obj_put [] k v = [(k, v)]"
| "obj_put ((k', v') # ps) k v = (if k' = k then (k, v) # ps else (k', v') # obj_put ps k v)"

text \<open>Reading a property, as in \<^verbatim>\<open>x.role\<close> or in the destructuring of a
  parameter: \<^verbatim>\<open>null\<close> and \<^verbatim>\<open>undefined\<close> have no properties and the read throws a
  \<^verbatim>\<open>TypeError\<close>; an object gives the property's value, or \<^verbatim>\<open>undefined\<close> when it
  has none of that name. The properties that primitives and arrays inherit
  (\<^verbatim>\<open>length\<close>, the methods) are not plain data and are not modelled: every other
  name reads as \<^verbatim>\<open>undefined\<close> on them.\<close>

datatype error = SyntaxError | TypeError

fun get_property :: "jsval \<Rightarrow> string \<Rightarrow> error + jsval" where
  "get_property Undefined k = Inl TypeError"
| "get_property Null k = Inl TypeError"
| "get_property (Obj ps) k = Inr (case map_of ps k of None \<Rightarrow> Undefined | Some v \<Rightarrow> v)"
| "get_property v k = Inr Undefined"

text \<open>The order in which the own properties are enumerated: array indices first, in
  ascending order, then the other names in creation order.\<close>

definition is_index :: "string \<Rightarrow> bool" where
  "is_index k =
     (k \<noteq> [] \<and> all_digits k \<and> (k = ''0'' \<or> hd k \<noteq> CHR ''0'') \<and> digits_val k < 4294967295)"

definition own_properties :: "(string \<times> 'a) list \<Rightarrow> (string \<times> 'a) list" where
  "own_properties ps =
     sort_key (\<lambda>p. digits_val (fst p)) (filter (\<lambda>p. is_index (fst p)) ps)
     @ filter (\<lambda>p. \<not> is_index (fst p)) ps"

subsection \<open>\<^verbatim>\<open>JSON.stringify\<close>\<close>

definition hex_digit :: "nat \<Rightarrow> char" where
  "hex_digit d = ''0123456789abcdef'' ! d"

definition quote_char :: "char \<Rightarrow> string" where
  "quote_char c =
     (if c = CHR 0x08 then [CHR 0x5C, CHR ''b'']
      else if c = CHR 0x09 then [CHR 0x5C, CHR ''t'']
      else if c = CHR 0x0A then [CHR 0x5C, CHR ''n'']
      else if c = CHR 0x0C then [CHR 0x5C, CHR ''f'']
      else if c = CHR 0x0D then [CHR 0x5C, CHR ''r'']
      else if c = CHR 0x22 then [CHR 0x5C, CHR 0x22]
      else if c = CHR 0x5C then [CHR 0x5C, CHR 0x5C]
      else if c < CHR 0x20
        then [CHR 0x5C, CHR ''u'', CHR ''0'', CHR ''0'',
              hex_digit (of_char c div 16), hex_digit (of_char c mod 16)]
      else [c])"

definition QuoteJSONString :: "string \<Rightarrow> string" where
  "QuoteJSONString s = CHR 0x22 # concat (map quote_char s) @ [CHR 0x22]"

text \<open>\<^verbatim>\<open>SerializeJSONProperty\<close>. The result \<open>None\<close> is JavaScript's
  \<^verbatim>\<open>undefined\<close>: \<^verbatim>\<open>JSON.stringify(undefined)\<close> is not a text. Inside an array
  \<^verbatim>\<open>undefined\<close> is written \<^verbatim>\<open>null\<close>; inside an object the property is left out.\<close>

fun SerializeJSONProperty :: "jsval \<Rightarrow> string option"
  and SerializeJSONArray :: "jsval list \<Rightarrow> string list"
  and SerializeJSONObject :: "(string \<times> jsval) list \<Rightarrow> (string \<times> string) list" where
  "SerializeJSONProperty Undefined = None"
| "SerializeJSONProperty Null = Some ''null''"
| "SerializeJSONProperty (Bool b) = Some (if b then ''true'' else ''false'')"
| "SerializeJSONProperty (Num n) =
     Some (case n of Dec m e \<Rightarrow> Number_toString n | _ \<Rightarrow> ''null'')"
| "SerializeJSONProperty (Str s) = Some (QuoteJSONString s)"
| "SerializeJSONProperty (Arr xs) =
     Some (''['' @ join_with '','' (SerializeJSONArray xs) @ '']'')"
| "SerializeJSONProperty (Obj ps) =
     Some (''{'' @ join_with '',''
             (map (\<lambda>(k, t). QuoteJSONString k @ '':'' @ t)
                (own_properties (SerializeJSONObject ps))) @ ''}'')"
| "SerializeJSONArray [] = []"
| "SerializeJSONArray (x # xs) =
     (case SerializeJSONProperty x of None \<Rightarrow> ''null'' | Some t \<Rightarrow> t) # SerializeJSONArray xs"
| "SerializeJSONObject [] = []"
| "SerializeJSONObject ((k, v) # ps) =
     (case SerializeJSONProperty v of
        None \<Rightarrow> SerializeJSONObject ps
      | Some t \<Rightarrow> (k, t) # SerializeJSONObject ps)"

definition JSON_stringify :: "jsval \<Rightarrow> jsval" where
  "JSON_stringify v = (case SerializeJSONProperty v of None \<Rightarrow> Undefined | Some t \<Rightarrow> Str t)"

subsection \<open>\<^verbatim>\<open>JSON.parse\<close>\<close>

text \<open>The text is cut into tokens, and the tokens are read by a pushdown automaton
  whose stack holds the arrays and objects still open. A text that is not JSON has no
  value: \<^verbatim>\<open>JSON.parse\<close> throws a \<^verbatim>\<open>SyntaxError\<close> on it.\<close>

datatype token = LBrace | RBrace | LBracket | RBracket | Colon | Comma | Lit jsval

definition unescape :: "char \<Rightarrow> char option" where
  "unescape e =
     (if e = CHR 0x22 \<or> e = CHR 0x5C \<or> e = CHR ''/'' then Some e
      else if e = CHR ''b'' then Some (CHR 0x08)
      else if e = CHR ''f'' then Some (CHR 0x0C)
      else if e = CHR ''n'' then Some (CHR 0x0A)
      else if e = CHR ''r'' then Some (CHR 0x0D)
      else if e = CHR ''t'' then Some (CHR 0x09)
      else None)"

text \<open>The bytes of the code unit written \<^verbatim>\<open>\uXXXX\<close> (UTF-8, each code unit on its
  own).\<close>

definition code_unit :: "nat \<Rightarrow> string" where
  "code_unit n =
     (if n < 128 then [char_of n]
      else if n < 2048 then [char_of (192 + n div 64), char_of (128 + n mod 64)]
      else [char_of (224 + n div 4096), char_of (128 + n div 64 mod 64), char_of (128 + n mod 64)])"

text \<open>The characters after an opening quote: the string they spell, and how many of
  them were read, closing quote included.\<close>

fun json_string :: "string \<Rightarrow> (string \<times> nat) option" where
  "json_string [] = None"
| "json_string (c # cs) =
     (if c = CHR 0x22 then Some ([], 1)
      else if c = CHR 0x5C then
        (case cs of
           [] \<Rightarrow> None
         | e # r \<Rightarrow>
             if e = CHR ''u'' then
               (if 4 \<le> length r \<and> list_all is_hex (take 4 r)
                then map_option
                       (\<lambda>(s, n). (code_unit (foldl (\<lambda>n c. 16 * n + hex_val c) 0 (take 4 r)) @ s, n + 6))
                       (json_string (drop 4 r))
                else None)
             else (case unescape e of
                     None \<Rightarrow> None
                   | Some ch \<Rightarrow> map_option (\<lambda>(s, n). (ch # s, n + 2)) (json_string r)))
      else if c < CHR 0x20 then None
      else map_option (\<lambda>(s, n). (c # s, n + 1)) (json_string cs))"

text \<open>A JSON number: as a decimal literal of the language, but with no leading
  \<^verbatim>\<open>+\<close>, no leading zero before another digit and digits on both sides of the
  point.\<close>

definition json_number :: "string \<Rightarrow> jsnum option" where
  "json_number s =
     (let neg = (s \<noteq> [] \<and> hd s = CHR ''-'');
          body = (if neg then tl s else s);
          (mant, ex) = split_on (\<lambda>c. c = CHR ''e'' \<or> c = CHR ''E'') body;
          (ip, fp) = split_on (\<lambda>c. c = CHR ''.'') mant
      in if ip = [] \<or> (hd ip = CHR ''0'' \<and> tl ip \<noteq> []) \<or> fp = Some [] then None
         else map_option (\<lambda>(m, e). Dec (if neg then - m else m) e) (unsigned_decimal body))"

definition is_numchar :: "char \<Rightarrow> bool" where
  "is_numchar c = (is_digit c \<or> c \<in> set [CHR ''-'', CHR ''+'', CHR ''.'', CHR ''e'', CHR ''E''])"

definition is_json_ws :: "char \<Rightarrow> bool" where
  "is_json_ws c = (c \<in> set [CHR 0x09, CHR 0x0A, CHR 0x0D, CHR '' ''])"

text \<open>The token that starts with the character \<open>c\<close>, if it is not white space, and
  how many of the characters after \<open>c\<close> belong to it.\<close>

definition next_token :: "char \<Rightarrow> string \<Rightarrow> (token option \<times> nat) option" where
  "next_token c cs =
     (if is_json_ws c then Some (None, 0)
      else if c = CHR ''{'' then Some (Some LBrace, 0)
      else if c = CHR ''}'' then Some (Some RBrace, 0)
      else if c = CHR ''['' then Some (Some LBracket, 0)
      else if c = CHR '']'' then Some (Some RBracket, 0)
      else if c = CHR '':'' then Some (Some Colon, 0)
      else if c = CHR '','' then Some (Some Comma, 0)
      else if c = CHR 0x22 then
        (case json_string cs of
           None \<Rightarrow> None
         | Some (s, n) \<Rightarrow> Some (Some (Lit (Str s)), n))
      else if c = CHR ''-'' \<or> is_digit c then
        (case json_number (c # takeWhile is_numchar cs) of
           None \<Rightarrow> None
         | Some x \<Rightarrow> Some (Some (Lit (Num x)), length (takeWhile is_numchar cs)))
      else if take 4 (c # cs) = ''true'' then Some (Some (Lit (Bool True)), 3)
      else if take 5 (c # cs) = ''false'' then Some (Some (Lit (Bool False)), 4)
      else if take 4 (c # cs) = ''null'' then Some (Some (Lit Null), 3)
      else None)"

fun json_tokens :: "string \<Rightarrow> token list option" where
  "json_tokens [] = Some []"
| "json_tokens (c # cs) =
     (case next_token c cs of
        None \<Rightarrow> None
      | Some (t, n) \<Rightarrow>
          map_option (\<lambda>ts. case t of None \<Rightarrow> ts | Some tok \<Rightarrow> tok # ts)
            (json_tokens (drop n cs)))"

datatype frame =
    InArray "jsval list"
  | InObject "(string \<times> jsval) list"
  | InMember "(string \<times> jsval) list" string

datatype expect = Value | ValueOrClose | KeyOrClose | Key | ColonNext | CommaOrClose | Done jsval

text \<open>A completed value goes to the innermost open array or member, or is the
  result when nothing is open.\<close>

fun deliver :: "jsval \<Rightarrow> frame list \<Rightarrow> (expect \<times> frame list) option" where
  "deliver v [] = Some (Done v, [])"
| "deliver v (InArray xs # fs) = Some (CommaOrClose, InArray (xs @ [v]) # fs)"
| "deliver v (InMember ps k # fs) = Some (CommaOrClose, InObject (obj_put ps k v) # fs)"
| "deliver v (InObject ps # fs) = None"

fun begin_value :: "token \<Rightarrow> frame list \<Rightarrow> (expect \<times> frame list) option" where
  "begin_value (Lit v) fs = deliver v fs"
| "begin_value LBracket fs = Some (ValueOrClose, InArray [] # fs)"
| "begin_value LBrace fs = Some (KeyOrClose, InObject [] # fs)"
| "begin_value t fs = None"

fun begin_member :: "token \<Rightarrow> frame list \<Rightarrow> (expect \<times> frame list) option" where
  "begin_member (Lit (Str k)) (InObject ps # fs) = Some (ColonNext, InMember ps k # fs)"
| "begin_member t fs = None"

fun close_array :: "frame list \<Rightarrow> (expect \<times> frame list) option" where
  "close_array (InArray xs # fs) = deliver (Arr xs) fs"
| "close_array fs = None"

fun close_object :: "frame list \<Rightarrow> (expect \<times> frame list) option" where
  "close_object (InObject ps # fs) = deliver (Obj ps) fs"
| "close_object fs = None"

fun accept :: "expect \<times> frame list \<Rightarrow> token \<Rightarrow> (expect \<times> frame list) option" where
  "accept (Value, fs) t = begin_value t fs"
| "accept (ValueOrClose, fs) t = (if t = RBracket then close_array fs else begin_value t fs)"
| "accept (KeyOrClose, fs) t = (if t = RBrace then close_object fs else begin_member t fs)"
| "accept (Key, fs) t = begin_member t fs"
| "accept (ColonNext, fs) t = (if t = Colon then Some (Value, fs) else None)"
| "accept (CommaOrClose, fs) t =
     (case fs of
        InArray xs # _ \<Rightarrow>
          if t = Comma then Some (Value, fs)
          else if t = RBracket then close_array fs else None
      | InObject ps # _ \<Rightarrow>
          if t = Comma then Some (Key, fs)
          else if t = RBrace then close_object fs else None
      | _ \<Rightarrow> None)"
| "accept (Done v, fs) t = None"

fun parse_tokens :: "expect \<times> frame list \<Rightarrow> token list \<Rightarrow> (expect \<times> frame list) option" where
  "parse_tokens st [] = Some st"
| "parse_tokens st (t # ts) =
     (case accept st t of None \<Rightarrow> None | Some st' \<Rightarrow> parse_tokens st' ts)"

definition JSON_parse :: "string \<Rightarrow> jsval option" where
  "JSON_parse text =
     (case json_tokens text of
        None \<Rightarrow> None
      | Some ts \<Rightarrow>
          (case parse_tokens (Value, []) ts of
             Some (Done v, fs) \<Rightarrow> Some v
           | _ \<Rightarrow> None))"

section \<open>The session provider\<close>

text \<open>\<^verbatim>\<open>localStorage\<close> maps keys to texts. \<^verbatim>\<open>getItem\<close> gives \<^verbatim>\<open>null\<close> for a key
  that is not there; \<^verbatim>\<open>setItem\<close> stores the \<^verbatim>\<open>ToString\<close> of its argument. The
  storage quota is not modelled.\<close>

type_synonym storage = "string \<rightharpoonup> string"

definition getItem :: "storage \<Rightarrow> string \<Rightarrow> jsval" where
  "getItem st k = (case st k of None \<Rightarrow> Null | Some s \<Rightarrow> Str s)"

definition setItem :: "storage \<Rightarrow> string \<Rightarrow> jsval \<Rightarrow> storage" where
  "setItem st k v = st(k \<mapsto> ToString v)"

definition removeItem :: "storage \<Rightarrow> string \<Rightarrow> storage" where
  "removeItem st k = st(k := None)"

text \<open>The state object of \<^verbatim>\<open>useState\<close>, with the three fields the code gives it.\<close>

record authState =
  token :: jsval
  expiresAt :: jsval
  userInfo :: jsval

text \<open>What the provider's operations read and change: the storage, the state cell of
  \<^verbatim>\<open>useState\<close> and the router history, as the list of the paths pushed so far.\<close>

record session =
  localStorage :: storage
  authState :: authState
  history :: "string list"

text \<open>The initial state, from the first lines of \<^verbatim>\<open>AuthProvider\<close>:
  \<^verbatim>\<open>
  const userInfo = localStorage.getItem('userInfo');
  const expiresAt = localStorage.getItem('expiresAt');
  const [authState, setAuthState] = useState({
    token: null,
    expiresAt,
    userInfo: userInfo ? JSON.parse(userInfo) : {}
  });\<close>
  There is no \<^verbatim>\<open>try\<close> around \<^verbatim>\<open>JSON.parse\<close>: its \<^verbatim>\<open>SyntaxError\<close> leaves the
  component. (These lines are part of the component's body, which runs at every
  render; the value they compute becomes the state at the first one.)\<close>

definition AuthProvider :: "storage \<Rightarrow> error + authState" where
  "AuthProvider st =
     (let storedUserInfo = getItem st ''userInfo'';
          storedExpiresAt = getItem st ''expiresAt''
      in if ToBoolean storedUserInfo
         then (case JSON_parse (ToString storedUserInfo) of
                 None \<Rightarrow> Inl SyntaxError
               | Some v \<Rightarrow> Inr \<lparr>token = Null, expiresAt = storedExpiresAt, userInfo = v\<rparr>)
         else Inr \<lparr>token = Null, expiresAt = storedExpiresAt, userInfo = Obj []\<rparr>)"

text \<open>A render after the first. React runs the body of the component again, and the
  lines above with it: \<^verbatim>\<open>useState\<close> now gives the current state and drops the value
  of its argument, but the argument is evaluated all the same, so \<^verbatim>\<open>JSON.parse\<close> is
  called on the stored \<^verbatim>\<open>userInfo\<close> and may throw.\<close>

definition render :: "session \<Rightarrow> error + authState" where
  "render s =
     (case AuthProvider (localStorage s) of
        Inl e \<Rightarrow> Inl e
      | Inr initial \<Rightarrow> Inr (authState s))"

text \<open>\<^verbatim>\<open>setAuthState(newState)\<close>, the setter of \<^verbatim>\<open>useState\<close>, called with a
  fresh object: React takes the new state and renders the component again. When that
  render throws, the new state is never committed and never seen; the failure is kept
  with the session as it then is, with everything that had been written before.\<close>

definition setAuthState :: "authState \<Rightarrow> session \<Rightarrow> error \<times> session + session" where
  "setAuthState newState s =
     (case render (s\<lparr>authState := newState\<rparr>) of
        Inl e \<Rightarrow> Inl (e, s)
      | Inr current \<Rightarrow> Inr (s\<lparr>authState := current\<rparr>))"

text \<open>\<^verbatim>\<open>
  const setAuthInfo = ({ token, userInfo, expiresAt }) => {
    localStorage.setItem('userInfo', JSON.stringify(userInfo));
    localStorage.setItem('expiresAt', expiresAt);
    setAuthState({ token, userInfo, expiresAt });
  };\<close>
  The destructuring of the parameter reads the three properties of the argument; it
  throws when the argument is \<^verbatim>\<open>null\<close> or \<^verbatim>\<open>undefined\<close>, before anything is
  written. The two texts are stored, and then the state is set, with the render that
  this brings.\<close>

definition setAuthInfo :: "jsval \<Rightarrow> session \<Rightarrow> error \<times> session + session" where
  "setAuthInfo authInfo s =
     (case get_property authInfo ''token'' of
        Inl e \<Rightarrow> Inl (e, s)
      | Inr tokenArg \<Rightarrow>
          (case get_property authInfo ''userInfo'' of
             Inl e \<Rightarrow> Inl (e, s)
           | Inr userInfoArg \<Rightarrow>
               (case get_property authInfo ''expiresAt'' of
                  Inl e \<Rightarrow> Inl (e, s)
                | Inr expiresAtArg \<Rightarrow>
                    setAuthState
                      \<lparr>token = tokenArg, expiresAt = expiresAtArg, userInfo = userInfoArg\<rparr>
                      (s\<lparr>localStorage :=
                           setItem
                             (setItem (localStorage s) ''userInfo'' (JSON_stringify userInfoArg))
                             ''expiresAt'' expiresAtArg\<rparr>))))"

text \<open>\<^verbatim>\<open>
  const logout = () => {
    localStorage.removeItem('userInfo');
    localStorage.removeItem('expiresAt');
    setAuthState({ token: null, expiresAt: null, userInfo: {} });
    history.push('/login');
  };\<close>
  The render that follows finds no \<^verbatim>\<open>userInfo\<close> in the storage, calls no
  \<^verbatim>\<open>JSON.parse\<close> and cannot throw: the new state is committed.\<close>

definition logout :: "session \<Rightarrow> session" where
  "logout s =
     s\<lparr>localStorage := removeItem (removeItem (localStorage s) ''userInfo'') ''expiresAt'',
       authState := \<lparr>token = Null, expiresAt = Null, userInfo = Obj []\<rparr>,
       history := history s @ [''/login'']\<rparr>"

text \<open>\<^verbatim>\<open>
  const isAuthenticated = () => {
    if (!authState.token || !authState.expiresAt) {
      return false;
    }
    return new Date().getTime() / 1000 < authState.expiresAt;
  };\<close>
  The clock, \<^verbatim>\<open>new Date().getTime()\<close>, is the parameter \<open>now\<close>, in milliseconds.\<close>

definition isAuthenticated :: "int \<Rightarrow> authState \<Rightarrow> bool" where
  "isAuthenticated now a =
     (if \<not> ToBoolean (token a) \<or> \<not> ToBoolean (expiresAt a) then False
      else num_less (of_int now / 1000) (ToNumber (expiresAt a)))"

text \<open>\<^verbatim>\<open>
  const isAdmin = () => {
    return authState.userInfo.role === 'admin';
  };\<close>\<close>

definition isAdmin :: "authState \<Rightarrow> error + bool" where
  "isAdmin a =
     (case get_property (userInfo a) ''role'' of
        Inl e \<Rightarrow> Inl e
      | Inr role \<Rightarrow> Inr (role = Str ''admin''))"

section \<open>The request provider\<close>

text \<open>\<^verbatim>\<open>
  const authAxios = axios.create({ baseURL: process.env.REACT_APP_API_URL });
  useEffect(() => {
    const getCsrfToken = async () => {
      const { data } = await authAxios.get('/csrf-token');
      authAxios.defaults.headers['X-CSRF-Token'] = data.csrfToken;
    };
    getCsrfToken();
  }, []);\<close>
  The client has its default headers, of which only those set by this code are
  modelled; a request sent through the client carries the defaults of that moment.
  The log \<open>sent\<close> records each request with the \<^verbatim>\<open>X-CSRF-Token\<close> header it carried,
  \<open>csrf_calls\<close> counts the calls of \<^verbatim>\<open>getCsrfToken\<close>, and \<open>awaiting\<close> tells that the
  call is suspended at its \<^verbatim>\<open>await\<close>.

  The model follows one client through its life: the one made when the provider is
  mounted, to which the closure of the effect refers. The effect, with its empty
  dependency list, runs once, after that first render. The provider has no state of
  its own and reads no context; were it rendered again by its parent,
  \<^verbatim>\<open>axios.create\<close> would make another client, which is not followed here. What
  comes after the mount are events: a request made by the application through the
  client, and the settling of the handshake's promise. A promise settles once: a
  settling event that comes when nothing is awaited has no effect. The backend
  answers \<^verbatim>\<open>{ csrfToken: string }\<close>; the event \<open>Fulfilled\<close> carries that string.\<close>

record gateway =
  headers :: "string \<rightharpoonup> string"
  awaiting :: bool
  csrf_calls :: nat
  sent :: "(string \<times> string \<times> string option) list"

definition axios_create :: gateway where
  "axios_create = \<lparr>headers = Map.empty, awaiting = False, csrf_calls = 0, sent = []\<rparr>"

definition request :: "string \<Rightarrow> string \<Rightarrow> gateway \<Rightarrow> gateway" where
  "request verb url g = g\<lparr>sent := sent g @ [(verb, url, headers g ''X-CSRF-Token'')]\<rparr>"

text \<open>\<^verbatim>\<open>getCsrfToken\<close> up to its \<^verbatim>\<open>await\<close>: the request leaves, the rest waits.\<close>

definition getCsrfToken :: "gateway \<Rightarrow> gateway" where
  "getCsrfToken g = (request ''GET'' ''/csrf-token'' g)\<lparr>awaiting := True, csrf_calls := csrf_calls g + 1\<rparr>"

text \<open>and after it, when the response has come.\<close>

definition getCsrfToken_resume :: "string \<Rightarrow> gateway \<Rightarrow> gateway" where
  "getCsrfToken_resume csrfToken g =
     g\<lparr>headers := (headers g)(''X-CSRF-Token'' \<mapsto> csrfToken), awaiting := False\<rparr>"

definition FetchProvider :: gateway where
  "FetchProvider = getCsrfToken axios_create"

datatype event = Request string string | Fulfilled string | Failed

fun gateway_step :: "gateway \<Rightarrow> event \<Rightarrow> gateway" where
  "gateway_step g (Request verb url) = request verb url g"
| "gateway_step g (Fulfilled csrfToken) =
     (if awaiting g then getCsrfToken_resume csrfToken g else g)"
| "gateway_step g Failed = (if awaiting g then g\<lparr>awaiting := False\<rparr> else g)"

definition gateway_run :: "event list \<Rightarrow> gateway" where
  "gateway_run evs = foldl gateway_step FetchProvider evs"

section \<open>The two providers together\<close>

text \<open>The operations the providers offer to the application, and the events of the
  gateway. A call that throws leaves what it had written before. After a render has
  thrown, React unmounts the components; the functions of the provider stay callable
  for whoever holds them, and what they do to the storage and to the history is the
  same, so a run goes on.\<close>

datatype op = SetAuthInfo jsval | Logout | IsAuthenticated int | IsAdmin | Gateway event

fun exec :: "session \<times> gateway \<Rightarrow> op \<Rightarrow> session \<times> gateway" where
  "exec (s, g) (SetAuthInfo authInfo) =
     (case setAuthInfo authInfo s of Inl (e, s') \<Rightarrow> (s', g) | Inr s' \<Rightarrow> (s', g))"
| "exec (s, g) Logout = (logout s, g)"
| "exec (s, g) (IsAuthenticated now) = (s, g)"
| "exec (s, g) IsAdmin = (s, g)"
| "exec (s, g) (Gateway ev) = (s, gateway_step g ev)"

definition run :: "session \<times> gateway \<Rightarrow> op list \<Rightarrow> session \<times> gateway" where
  "run a ops = foldl exec a ops"

text \<open>Two operations that differ at most in the \<^verbatim>\<open>token\<close> given to
  \<^verbatim>\<open>setAuthInfo\<close>.\<close>

fun same_but_token :: "op \<Rightarrow> op \<Rightarrow> bool" where
  "same_but_token (SetAuthInfo a) (SetAuthInfo b) =
     (get_property a ''userInfo'' = get_property b ''userInfo''
      \<and> get_property a ''expiresAt'' = get_property b ''expiresAt'')"
| "same_but_token x y = (x = y)"

text \<open>Which settling event of a trace takes effect: the first one, requests aside.\<close>

fun outcome :: "event list \<Rightarrow> event option" where
  "outcome [] = None"
| "outcome (Request verb url # evs) = outcome evs"
| "outcome (ev # evs) = Some ev"

section \<open>Notions for the proofs\<close>

text \<open>Nothing below is code of the two providers. The grammar of JSON texts is written
  out on token sequences, to prove that \<^verbatim>\<open>JSON.parse\<close> accepts every text that
  \<^verbatim>\<open>JSON.stringify\<close> writes; the rest is notation for the statements.\<close>

text \<open>The value read for a property of an object: \<^verbatim>\<open>undefined\<close> when it has none of
  that name.\<close>

abbreviation (input) field :: "(string \<times> jsval) list \<Rightarrow> string \<Rightarrow> jsval" where
  "field ps k \<equiv> (case map_of ps k of None \<Rightarrow> Undefined | Some v \<Rightarrow> v)"

text \<open>The double quote, for writing JSON texts.\<close>

abbreviation (input) dq :: string where
  "dq \<equiv> [CHR 0x22]"

text \<open>The shape of a JSON number text: an integer part, an optional fraction and an
  optional exponent with its sign.\<close>

definition number_text :: "string \<Rightarrow> string option \<Rightarrow> string option \<Rightarrow> string" where
  "number_text ip fp ex =
     ip @ (case fp of None \<Rightarrow> [] | Some f \<Rightarrow> CHR ''.'' # f)
        @ (case ex of None \<Rightarrow> [] | Some x \<Rightarrow> CHR ''e'' # x)"

definition number_parts :: "string \<Rightarrow> string option \<Rightarrow> string option \<Rightarrow> bool" where
  "number_parts ip fp ex =
     (ip \<noteq> [] \<and> all_digits ip \<and> (hd ip \<noteq> CHR ''0'' \<or> tl ip = [])
      \<and> (case fp of None \<Rightarrow> True | Some f \<Rightarrow> f \<noteq> [] \<and> all_digits f)
      \<and> (case ex of
            None \<Rightarrow> True
          | Some x \<Rightarrow> x \<noteq> [] \<and> (hd x = CHR ''-'' \<or> hd x = CHR ''+'') \<and> tl x \<noteq> [] \<and> all_digits (tl x)))"

text \<open>What may follow a value in a JSON text without running into it: not a
  character that could continue a number.\<close>

definition good_rest :: "string \<Rightarrow> bool" where
  "good_rest r = (r = [] \<or> \<not> is_numchar (hd r))"

text \<open>The token sequences of the JSON grammar: a value, the elements of a non-empty
  array, the members of a non-empty object.\<close>

inductive value_toks :: "token list \<Rightarrow> bool"
  and elems_toks :: "token list \<Rightarrow> bool"
  and members_toks :: "token list \<Rightarrow> bool" where
  lit: "value_toks [Lit v]"
| arr0: "value_toks [LBracket, RBracket]"
| arr: "elems_toks E \<Longrightarrow> value_toks (LBracket # E @ [RBracket])"
| obj0: "value_toks [LBrace, RBrace]"
| obj: "members_toks M \<Longrightarrow> value_toks (LBrace # M @ [RBrace])"
| elem1: "value_toks T \<Longrightarrow> elems_toks T"
| elems: "value_toks T \<Longrightarrow> elems_toks E \<Longrightarrow> elems_toks (T @ Comma # E)"
| mem1: "value_toks T \<Longrightarrow> members_toks (Lit (Str k) # Colon # T)"
| mems: "value_toks T \<Longrightarrow> members_toks M \<Longrightarrow> members_toks (Lit (Str k) # Colon # T @ Comma # M)"

text \<open>A text that the tokenizer reads as one value, whatever follows it.\<close>

definition lexes_value :: "string \<Rightarrow> bool" where
  "lexes_value t =
     (\<exists>T. value_toks T
        \<and> (\<forall>r. good_rest r \<longrightarrow> json_tokens (t @ r) = map_option ((@) T) (json_tokens r)))"

text \<open>A stack on which a value may arrive: empty, or an array or a member on top.\<close>

fun takes_value :: "frame list \<Rightarrow> bool" where
  "takes_value (InObject ps # fs) = False"
| "takes_value fs = True"

section \<open>Properties\<close>

subsection \<open>Evaluating the language model on literals\<close>

lemma replicate_numeral: "replicate (numeral k) x = x # replicate (pred_numeral k) x"
  by (simp add: numeral_eq_Suc)

lemmas js_eval = Number_toString_def show_nat.simps digit_char_def Let_def replicate_numeral
  JSON_stringify_def own_properties_def is_index_def all_digits_def is_digit_def
  QuoteJSONString_def quote_char_def hex_digit_def
  StringToNumber_def trim_def is_ws_def str_decimal_def unsigned_decimal_def split_on_def
  exponent_part_def signed_int_def digits_val_def digit_val_def dec_val_def radix_literal_def
  is_hex_def hex_val_def

lemma parse_undefined: "JSON_parse ''undefined'' = None"
  by code_simp

lemma parse_open_brace: "JSON_parse ''{'' = None"
  by code_simp

lemma parse_admin:
  "JSON_parse [CHR ''{'', CHR 0x22, CHR ''r'', CHR ''o'', CHR ''l'', CHR ''e'', CHR 0x22, CHR '':'',
               CHR 0x22, CHR ''a'', CHR ''d'', CHR ''m'', CHR ''i'', CHR ''n'', CHR 0x22, CHR ''}'']
   = Some (Obj [(''role'', Str ''admin'')])"
  by code_simp

lemma ToString_stringify_Undefined: "ToString (JSON_stringify Undefined) = ''undefined''"
  by (simp add: JSON_stringify_def)

subsection \<open>What \<^verbatim>\<open>JSON.stringify\<close> writes, \<^verbatim>\<open>JSON.parse\<close> reads\<close>

lemma digit_chars: "list_all (\<lambda>d. is_digit (digit_char d) \<and> (0 < d \<longrightarrow> digit_char d \<noteq> CHR ''0'')) [0..<10]"
  by code_simp

lemma digit_char_digit: "d < 10 \<Longrightarrow> is_digit (digit_char d)"
  using digit_chars by (simp add: list_all_iff)

lemma digit_char_nonzero: "0 < d \<Longrightarrow> d < 10 \<Longrightarrow> digit_char d \<noteq> CHR ''0''"
  using digit_chars by (simp add: list_all_iff)

lemma show_nat_nonempty: "show_nat n \<noteq> []"
  by (subst show_nat.simps) simp

lemma show_nat_digits: "all_digits (show_nat n)"
proof (induction n rule: show_nat.induct)
  case (1 n)
  show ?case
  proof (cases "n < 10")
    case True
    then show ?thesis
      by (subst show_nat.simps) (simp add: all_digits_def digit_char_digit)
  next
    case False
    with 1 have "all_digits (show_nat (n div 10))" by simp
    moreover have "is_digit (digit_char (n mod 10))" by (simp add: digit_char_digit)
    ultimately show ?thesis using False
      by (subst show_nat.simps) (simp add: all_digits_def)
  qed
qed

lemma show_nat_hd: "0 < n \<Longrightarrow> hd (show_nat n) \<noteq> CHR ''0''"
proof (induction n rule: show_nat.induct)
  case (1 n)
  show ?case
  proof (cases "n < 10")
    case True
    with 1(2) show ?thesis
      by (subst show_nat.simps) (simp add: digit_char_nonzero)
  next
    case False
    then have "0 < n div 10" by simp
    with 1(1) False have "hd (show_nat (n div 10)) \<noteq> CHR ''0''" by simp
    then show ?thesis using False
      by (subst show_nat.simps) (simp add: show_nat_nonempty)
  qed
qed
lemma digit_plain:
  "is_digit c \<Longrightarrow> c \<noteq> CHR ''.'' \<and> c \<noteq> CHR ''e'' \<and> c \<noteq> CHR ''E'' \<and> c \<noteq> CHR ''-'' \<and> c \<noteq> CHR ''+''"
  by (auto simp: is_digit_def)

lemma split_on_none:
  assumes "list_all (\<lambda>c. \<not> P c) a"
  shows "split_on P a = (a, None)"
proof -
  have dt: "dropWhile (\<lambda>c. \<not> P c) a = []" "takeWhile (\<lambda>c. \<not> P c) a = a"
    using assms by (simp_all add: list_all_iff)
  show ?thesis unfolding split_on_def dt by simp
qed

lemma split_on_some: "list_all (\<lambda>c. \<not> P c) a \<Longrightarrow> P c \<Longrightarrow> split_on P (a @ c # b) = (a, Some b)"
  by (simp add: split_on_def list_all_iff)

lemma digits_no_e: "all_digits a \<Longrightarrow> list_all (\<lambda>c. \<not> (c = CHR ''e'' \<or> c = CHR ''E'')) a"
  by (auto simp: all_digits_def list_all_iff dest: digit_plain)

lemma digits_no_dot: "all_digits a \<Longrightarrow> list_all (\<lambda>c. \<not> c = CHR ''.'') a"
  by (auto simp: all_digits_def list_all_iff dest: digit_plain)

lemma signed_int_ok:
  "x \<noteq> [] \<Longrightarrow> hd x = CHR ''-'' \<or> hd x = CHR ''+'' \<Longrightarrow> tl x \<noteq> [] \<Longrightarrow> all_digits (tl x) \<Longrightarrow>
   signed_int x \<noteq> None"
  by (cases x) (auto simp: signed_int_def)

lemma number_text_splits:
  assumes "number_parts ip fp ex"
  shows "split_on (\<lambda>c. c = CHR ''e'' \<or> c = CHR ''E'') (number_text ip fp ex)
           = (ip @ (case fp of None \<Rightarrow> [] | Some f \<Rightarrow> CHR ''.'' # f), ex)"
    and "split_on (\<lambda>c. c = CHR ''.'') (ip @ (case fp of None \<Rightarrow> [] | Some f \<Rightarrow> CHR ''.'' # f))
           = (ip, fp)"
proof -
  let ?mant = "ip @ (case fp of None \<Rightarrow> [] | Some f \<Rightarrow> CHR ''.'' # f)"
  have ip: "ip \<noteq> []" "all_digits ip" using assms by (simp_all add: number_parts_def)
  have mant_no_e: "list_all (\<lambda>c. \<not> (c = CHR ''e'' \<or> c = CHR ''E'')) ?mant"
    using assms digits_no_e [of ip]
    by (cases fp) (auto simp: number_parts_def dest: digits_no_e)
  show "split_on (\<lambda>c. c = CHR ''e'' \<or> c = CHR ''E'') (number_text ip fp ex) = (?mant, ex)"
  proof (cases ex)
    case None
    then show ?thesis using split_on_none [OF mant_no_e] by (simp add: number_text_def)
  next
    case (Some x)
    have "split_on (\<lambda>c. c = CHR ''e'' \<or> c = CHR ''E'') (?mant @ CHR ''e'' # x) = (?mant, Some x)"
      by (rule split_on_some [OF mant_no_e]) simp
    then show ?thesis by (simp add: number_text_def Some)
  qed
  show "split_on (\<lambda>c. c = CHR ''.'') ?mant = (ip, fp)"
  proof (cases fp)
    case None
    then show ?thesis using split_on_none [OF digits_no_dot [OF ip(2)]] by simp
  next
    case (Some f)
    have "split_on (\<lambda>c. c = CHR ''.'') (ip @ CHR ''.'' # f) = (ip, Some f)"
      by (rule split_on_some [OF digits_no_dot [OF ip(2)]]) simp
    then show ?thesis by (simp add: Some)
  qed
qed

lemma unsigned_decimal_number_text:
  assumes "number_parts ip fp ex"
  shows "unsigned_decimal (number_text ip fp ex) \<noteq> None"
proof -
  have ip: "ip \<noteq> []" "all_digits ip" using assms by (simp_all add: number_parts_def)
  have "signed_int x \<noteq> None" if "ex = Some x" for x
    using that assms by (intro signed_int_ok) (simp_all add: number_parts_def)
  then have expo: "exponent_part ex \<noteq> None"
    by (cases ex) (simp_all add: exponent_part_def)
  then obtain e where e: "exponent_part ex = Some e" by blast
  have "unsigned_decimal (number_text ip fp ex) =
      (case fp of
         None \<Rightarrow> if ip \<noteq> [] \<and> all_digits ip then Some (int (digits_val ip), e) else None
       | Some f \<Rightarrow>
           if all_digits ip \<and> all_digits f \<and> (ip \<noteq> [] \<or> f \<noteq> [])
           then Some (int (digits_val (ip @ f)), e - int (length f)) else None)"
    by (simp add: unsigned_decimal_def number_text_splits [OF assms] e)
  then show ?thesis
    using assms ip by (cases fp) (simp_all add: number_parts_def)
qed

lemma number_text_hd:
  assumes "number_parts ip fp ex"
  shows "number_text ip fp ex \<noteq> []" and "is_digit (hd (number_text ip fp ex))"
  using assms by (cases ip; simp add: number_parts_def number_text_def all_digits_def)+

lemma json_number_number_text:
  assumes "number_parts ip fp ex"
  shows "json_number (number_text ip fp ex) \<noteq> None"
    and "json_number (CHR ''-'' # number_text ip fp ex) \<noteq> None"
proof -
  have hd: "hd (number_text ip fp ex) \<noteq> CHR ''-''"
    using number_text_hd(2) [OF assms] digit_plain by blast
  have fp: "fp \<noteq> Some []" using assms by (auto simp: number_parts_def)
  have ip: "ip \<noteq> []" "\<not> (hd ip = CHR ''0'' \<and> tl ip \<noteq> [])"
    using assms by (auto simp: number_parts_def)
  obtain y where y: "unsigned_decimal (number_text ip fp ex) = Some y"
    using unsigned_decimal_number_text [OF assms] by blast
  show "json_number (number_text ip fp ex) \<noteq> None"
    using hd fp ip by (simp add: json_number_def number_text_splits [OF assms] y split: prod.splits)
  show "json_number (CHR ''-'' # number_text ip fp ex) \<noteq> None"
    using fp ip by (simp add: json_number_def number_text_splits [OF assms] y split: prod.splits)
qed

lemma number_text_numchars:
  assumes "number_parts ip fp ex"
  shows "list_all is_numchar (number_text ip fp ex)"
proof -
  have d: "list_all is_numchar a" if "all_digits a" for a
    using that by (simp add: all_digits_def list_all_iff is_numchar_def)
  have ip: "list_all is_numchar ip" using assms by (simp add: number_parts_def d)
  have fp: "list_all is_numchar (case fp of None \<Rightarrow> [] | Some f \<Rightarrow> CHR ''.'' # f)"
    using assms by (cases fp) (simp_all add: number_parts_def d is_numchar_def)
  have ex: "list_all is_numchar (case ex of None \<Rightarrow> [] | Some x \<Rightarrow> CHR ''e'' # x)"
  proof (cases ex)
    case None
    then show ?thesis by simp
  next
    case (Some x)
    then have x: "x \<noteq> []" "hd x = CHR ''-'' \<or> hd x = CHR ''+''" "all_digits (tl x)"
      using assms by (simp_all add: number_parts_def)
    then obtain c r where cr: "x = c # r" by (cases x) simp_all
    with x have "is_numchar c" "list_all is_numchar r"
      using d [of r] by (auto simp: is_numchar_def)
    then show ?thesis by (simp add: Some cr is_numchar_def)
  qed
  from ip fp ex show ?thesis by (simp add: number_text_def)
qed
lemma significant_digits:
  assumes "ds \<noteq> []" "hd ds \<noteq> CHR ''0''" "all_digits ds"
  defines "z \<equiv> length (takeWhile (\<lambda>c. c = CHR ''0'') (rev ds))"
  defines "s \<equiv> take (length ds - z) ds"
  shows "s \<noteq> []" "hd s \<noteq> CHR ''0''" "all_digits s"
proof -
  have "z < length ds"
  proof (rule ccontr)
    assume "\<not> z < length ds"
    moreover have "z \<le> length (rev ds)" unfolding z_def by (rule length_takeWhile_le)
    ultimately have "z = length (rev ds)" by simp
    then have "takeWhile (\<lambda>c. c = CHR ''0'') (rev ds) = rev ds"
      unfolding z_def by (metis takeWhile_eq_take take_all order_refl)
    then have "\<forall>c \<in> set (rev ds). c = CHR ''0''" by (simp add: takeWhile_eq_all_conv)
    with assms(1,2) show False by (cases ds) auto
  qed
  then have pos: "0 < length ds - z" by simp
  then show "s \<noteq> []" using assms(1) by (auto simp: s_def)
  from pos show "hd s \<noteq> CHR ''0''" using assms(2) by (simp add: s_def hd_take)
  show "all_digits s"
    using assms(3) by (auto simp: s_def all_digits_def list_all_iff dest: in_set_takeD)
qed

lemma all_digits_zeros: "all_digits (replicate j CHR ''0'')"
  by (simp add: all_digits_def list_all_iff is_digit_def)

lemma all_digits_append: "all_digits (a @ b) = (all_digits a \<and> all_digits b)"
  by (simp add: all_digits_def)

lemma Number_toString_shape:
  "\<exists>sg ip fp ex. Number_toString (Dec m e) = sg @ number_text ip fp ex
      \<and> (sg = [] \<or> sg = ''-'') \<and> number_parts ip fp ex"
proof (cases "m = 0")
  case True
  have "Number_toString (Dec m e) = [] @ number_text ''0'' None None"
    by (simp add: Number_toString_def True number_text_def)
  moreover have "number_parts ''0'' None None"
    by (simp add: number_parts_def all_digits_def is_digit_def)
  ultimately show ?thesis by blast
next
  case False
  define ds where "ds = show_nat (nat \<bar>m\<bar>)"
  define z where "z = length (takeWhile (\<lambda>c. c = CHR ''0'') (rev ds))"
  define s where "s = take (length ds - z) ds"
  define k where "k = int (length s)"
  define n where "n = k + e + int z"
  define sg where "sg = (if m < 0 then ''-'' else [])"
  define body where "body =
     (if k \<le> n \<and> n \<le> 21 then s @ replicate (nat (n - k)) CHR ''0''
      else if 0 < n \<and> n \<le> 21 then take (nat n) s @ ''.'' @ drop (nat n) s
      else if - 6 < n \<and> n \<le> 0 then ''0.'' @ replicate (nat (- n)) CHR ''0'' @ s
      else (if k = 1 then s else hd s # ''.'' @ tl s)
           @ ''e'' @ (if n - 1 < 0 then ''-'' else ''+'') @ show_nat (nat \<bar>n - 1\<bar>))"
  have printed: "Number_toString (Dec m e) = sg @ body"
    using False
    by (simp add: Number_toString_def Let_def ds_def z_def s_def k_def n_def sg_def body_def)
  have "0 < nat \<bar>m\<bar>" using False by simp
  then have ds: "ds \<noteq> []" "hd ds \<noteq> CHR ''0''" "all_digits ds"
    by (simp_all add: ds_def show_nat_nonempty show_nat_hd show_nat_digits)
  have s: "s \<noteq> []" "hd s \<noteq> CHR ''0''" "all_digits s"
    using significant_digits [OF ds] by (simp_all add: s_def z_def)
  have k: "0 < k" using s(1) by (simp add: k_def)
  have sg: "sg = [] \<or> sg = ''-''" by (simp add: sg_def)
  have "\<exists>ip fp ex. body = number_text ip fp ex \<and> number_parts ip fp ex"
  proof -
    consider (A) "k \<le> n \<and> n \<le> 21"
      | (B) "\<not> (k \<le> n \<and> n \<le> 21)" "0 < n \<and> n \<le> 21"
      | (C) "\<not> (k \<le> n \<and> n \<le> 21)" "\<not> (0 < n \<and> n \<le> 21)" "- 6 < n \<and> n \<le> 0"
      | (D) "\<not> (k \<le> n \<and> n \<le> 21)" "\<not> (0 < n \<and> n \<le> 21)" "\<not> (- 6 < n \<and> n \<le> 0)"
      by blast
    then show ?thesis
    proof cases
      case A
      have "body = number_text (s @ replicate (nat (n - k)) CHR ''0'') None None"
        using A by (simp add: body_def number_text_def)
      moreover have "number_parts (s @ replicate (nat (n - k)) CHR ''0'') None None"
        using s by (simp add: number_parts_def all_digits_append all_digits_zeros)
      ultimately show ?thesis by blast
    next
      case B
      then have nk: "0 < nat n" "nat n < length s" unfolding k_def by linarith+
      have c: "(k \<le> n \<and> n \<le> 21) = False" "(0 < n \<and> n \<le> 21) = True"
        using B by simp_all
      have "body = number_text (take (nat n) s) (Some (drop (nat n) s)) None"
        by (simp only: body_def c if_False if_True) (simp add: number_text_def)
      moreover have "number_parts (take (nat n) s) (Some (drop (nat n) s)) None"
        using s nk
        by (auto simp: number_parts_def hd_take all_digits_def list_all_iff
            dest: in_set_takeD in_set_dropD)
      ultimately show ?thesis by blast
    next
      case C
      have c: "(k \<le> n \<and> n \<le> 21) = False" "(0 < n \<and> n \<le> 21) = False"
          "(- 6 < n \<and> n \<le> 0) = True"
        using C by simp_all
      have "body = number_text ''0'' (Some (replicate (nat (- n)) CHR ''0'' @ s)) None"
        by (simp only: body_def c if_False if_True) (simp add: number_text_def)
      moreover have "number_parts ''0'' (Some (replicate (nat (- n)) CHR ''0'' @ s)) None"
        using s by (simp add: number_parts_def all_digits_append all_digits_zeros)
          (simp add: all_digits_def is_digit_def)
      ultimately show ?thesis by blast
    next
      case D
      define x where "x = (if n - 1 < 0 then ''-'' else ''+'') @ show_nat (nat \<bar>n - 1\<bar>)"
      have x: "x \<noteq> []" "hd x = CHR ''-'' \<or> hd x = CHR ''+''" "tl x \<noteq> []" "all_digits (tl x)"
        by (simp_all add: x_def show_nat_nonempty show_nat_digits)
      have c: "(k \<le> n \<and> n \<le> 21) = False" "(0 < n \<and> n \<le> 21) = False"
          "(- 6 < n \<and> n \<le> 0) = False"
        using D by simp_all
      have b: "body = (if k = 1 then s else hd s # ''.'' @ tl s) @ ''e'' @ x"
        by (simp only: body_def x_def c if_False)
      show ?thesis
      proof (cases "k = 1")
        case True
        have "body = number_text s None (Some x)"
          using True by (simp add: b number_text_def)
        moreover have "number_parts s None (Some x)"
          using s x by (simp add: number_parts_def)
        ultimately show ?thesis by blast
      next
        case False
        with s(1) have "1 < length s" by (cases s) (auto simp: k_def)
        then have tl: "tl s \<noteq> []" by (cases s) auto
        have "all_digits (tl s)" "is_digit (hd s)"
          using s(1,3) by (cases s; simp add: all_digits_def)+
        then have parts: "number_parts [hd s] (Some (tl s)) (Some x)"
          using s x tl by (simp add: number_parts_def all_digits_def)
        have "body = number_text [hd s] (Some (tl s)) (Some x)"
          using False by (simp add: b number_text_def)
        with parts show ?thesis by blast
      qed
    qed
  qed
  with printed sg show ?thesis by blast
qed
lemma hex_digits: "list_all (\<lambda>d. is_hex (hex_digit d)) [0..<16]"
  by code_simp

lemma hex_digit_hex: "d < 16 \<Longrightarrow> is_hex (hex_digit d)"
  using hex_digits by (simp add: list_all_iff)

lemma json_string_quote_char:
  "\<exists>d. \<forall>rest s' n. json_string rest = Some (s', n) \<longrightarrow>
         json_string (quote_char c @ rest) = Some (d @ s', n + length (quote_char c))"
proof -
  consider (named) "c = CHR 0x08 \<or> c = CHR 0x09 \<or> c = CHR 0x0A \<or> c = CHR 0x0C \<or> c = CHR 0x0D
      \<or> c = CHR 0x22 \<or> c = CHR 0x5C"
    | (control) "\<not> (c = CHR 0x08 \<or> c = CHR 0x09 \<or> c = CHR 0x0A \<or> c = CHR 0x0C \<or> c = CHR 0x0D
      \<or> c = CHR 0x22 \<or> c = CHR 0x5C)" "c < CHR 0x20"
    | (plain) "\<not> (c = CHR 0x08 \<or> c = CHR 0x09 \<or> c = CHR 0x0A \<or> c = CHR 0x0C \<or> c = CHR 0x0D
      \<or> c = CHR 0x22 \<or> c = CHR 0x5C)" "\<not> c < CHR 0x20"
    by blast
  then show ?thesis
  proof cases
    case named
    then have "\<forall>rest s' n. json_string rest = Some (s', n) \<longrightarrow>
         json_string (quote_char c @ rest) = Some ([c] @ s', n + length (quote_char c))"
      by (auto simp: quote_char_def unescape_def)
    then show ?thesis by (rule exI)
  next
    case control
    have "(of_char c :: nat) < 32" using control(2) by (simp add: less_char_def)
    then have h: "is_hex (hex_digit (of_char c div 16))" "is_hex (hex_digit (of_char c mod 16))"
      by (simp_all add: hex_digit_hex)
    have z: "is_hex CHR ''0''" by (simp add: is_hex_def is_digit_def)
    have q: "quote_char c = [CHR 0x5C, CHR ''u'', CHR ''0'', CHR ''0'',
        hex_digit (of_char c div 16), hex_digit (of_char c mod 16)]"
      using control by (simp add: quote_char_def)
    have "\<forall>rest s' n. json_string rest = Some (s', n) \<longrightarrow>
         json_string (quote_char c @ rest)
         = Some (code_unit (foldl (\<lambda>n c. 16 * n + hex_val c) 0
                   [CHR ''0'', CHR ''0'', hex_digit (of_char c div 16), hex_digit (of_char c mod 16)]) @ s',
                 n + length (quote_char c))"
      using h z by (simp add: q)
    then show ?thesis by (rule exI)
  next
    case plain
    then have "quote_char c = [c]" by (simp add: quote_char_def)
    then have "\<forall>rest s' n. json_string rest = Some (s', n) \<longrightarrow>
         json_string (quote_char c @ rest) = Some ([c] @ s', n + length (quote_char c))"
      using plain by simp
    then show ?thesis by (rule exI)
  qed
qed

lemma json_string_quoted:
  "\<exists>s'. \<forall>r. json_string (concat (map quote_char s) @ CHR 0x22 # r)
          = Some (s', length (concat (map quote_char s)) + 1)"
proof (induction s)
  case Nil
  show ?case by simp
next
  case (Cons c s)
  then obtain s' where s': "\<And>r. json_string (concat (map quote_char s) @ CHR 0x22 # r)
      = Some (s', length (concat (map quote_char s)) + 1)" by blast
  obtain d where d: "\<And>rest s' n. json_string rest = Some (s', n) \<Longrightarrow>
         json_string (quote_char c @ rest) = Some (d @ s', n + length (quote_char c))"
    using json_string_quote_char [of c] by blast
  have "\<forall>r. json_string (concat (map quote_char (c # s)) @ CHR 0x22 # r)
          = Some (d @ s', length (concat (map quote_char (c # s))) + 1)"
    using d [OF s'] by (simp add: add.commute add.left_commute)
  then show ?case by (rule exI)
qed

lemma json_tokens_string:
  "\<exists>s'. \<forall>r. json_tokens (QuoteJSONString s @ r) = map_option (Cons (Lit (Str s'))) (json_tokens r)"
proof -
  obtain s' where s': "\<And>r. json_string (concat (map quote_char s) @ CHR 0x22 # r)
      = Some (s', length (concat (map quote_char s)) + 1)"
    using json_string_quoted by blast
  have "\<forall>r. json_tokens (QuoteJSONString s @ r) = map_option (Cons (Lit (Str s'))) (json_tokens r)"
    by (simp add: QuoteJSONString_def next_token_def is_json_ws_def s')
  then show ?thesis by (rule exI)
qed

lemma json_tokens_punct:
  "json_tokens (CHR ''{'' # r) = map_option (Cons LBrace) (json_tokens r)"
  "json_tokens (CHR ''}'' # r) = map_option (Cons RBrace) (json_tokens r)"
  "json_tokens (CHR ''['' # r) = map_option (Cons LBracket) (json_tokens r)"
  "json_tokens (CHR '']'' # r) = map_option (Cons RBracket) (json_tokens r)"
  "json_tokens (CHR '':'' # r) = map_option (Cons Colon) (json_tokens r)"
  "json_tokens (CHR '','' # r) = map_option (Cons Comma) (json_tokens r)"
  by (simp_all add: next_token_def is_json_ws_def)

lemma json_tokens_literal:
  "json_tokens (''null'' @ r) = map_option (Cons (Lit Null)) (json_tokens r)"
  "json_tokens (''true'' @ r) = map_option (Cons (Lit (Bool True))) (json_tokens r)"
  "json_tokens (''false'' @ r) = map_option (Cons (Lit (Bool False))) (json_tokens r)"
  by (simp_all add: next_token_def is_json_ws_def is_digit_def)

lemma json_tokens_number:
  assumes "number_parts ip fp ex" "sg = [] \<or> sg = ''-''"
  shows "\<exists>x. \<forall>r. good_rest r \<longrightarrow>
           json_tokens ((sg @ number_text ip fp ex) @ r) = map_option (Cons (Lit (Num x))) (json_tokens r)"
proof -
  let ?nt = "number_text ip fp ex"
  obtain c t' where t: "sg @ ?nt = c # t'" "c = CHR ''-'' \<or> is_digit c" "list_all is_numchar t'"
  proof (cases "sg = []")
    case True
    obtain d u where du: "?nt = d # u" using number_text_hd(1) [OF assms(1)] by (cases ?nt) auto
    then have "is_digit d" using number_text_hd(2) [OF assms(1)] by simp
    moreover have "list_all is_numchar u" using number_text_numchars [OF assms(1)] du by simp
    ultimately show ?thesis using that [of d u] True du by simp
  next
    case False
    then have "sg = ''-''" using assms(2) by simp
    then show ?thesis using that [of "CHR ''-''" ?nt] number_text_numchars [OF assms(1)] by simp
  qed
  have num: "json_number (c # t') \<noteq> None"
    using assms(2) json_number_number_text [OF assms(1)] t(1) by auto
  then obtain x where x: "json_number (c # t') = Some x" by blast
  have c: "\<not> is_json_ws c" "c \<noteq> CHR ''{''" "c \<noteq> CHR ''}''" "c \<noteq> CHR ''[''" "c \<noteq> CHR '']''"
    "c \<noteq> CHR '':''" "c \<noteq> CHR '',''" "c \<noteq> CHR 0x22"
    using t(2) by (auto simp: is_json_ws_def is_digit_def)
  have "json_tokens ((c # t') @ r) = map_option (Cons (Lit (Num x))) (json_tokens r)"
    if "good_rest r" for r
  proof -
    have "takeWhile is_numchar r = []"
      using that by (cases r) (simp_all add: good_rest_def)
    then have tw: "takeWhile is_numchar (t' @ r) = t'"
      using t(3) by (simp add: list_all_iff)
    have "next_token c (t' @ r) = Some (Some (Lit (Num x)), length t')"
      using c t(2) by (simp add: next_token_def tw x)
    then show ?thesis by simp
  qed
  then have "\<forall>r. good_rest r \<longrightarrow>
      json_tokens ((sg @ ?nt) @ r) = map_option (Cons (Lit (Num x))) (json_tokens r)"
    unfolding t(1) by blast
  then show ?thesis by (rule exI)
qed
lemma map_option_app_cons:
  "map_option ((@) T) (map_option ((#) c) X) = map_option ((@) (T @ [c])) X"
  by (cases X) simp_all

lemma map_option_app_app:
  "map_option ((@) A) (map_option ((@) B) X) = map_option ((@) (A @ B)) X"
  by (cases X) simp_all

lemma map_option_cons_app:
  "map_option ((#) c) (map_option ((@) B) X) = map_option ((@) (c # B)) X"
  by (cases X) simp_all

lemma map_option_cons_single:
  "map_option ((#) c) X = map_option ((@) [c]) X"
  by (cases X) simp_all

lemma good_rest_punct:
  "good_rest (CHR '','' # r)" "good_rest (CHR '']'' # r)" "good_rest (CHR ''}'' # r)" "good_rest []"
  by (simp_all add: good_rest_def is_numchar_def is_digit_def)

lemma lexes_value_token:
  assumes "\<forall>r. good_rest r \<longrightarrow> json_tokens (t @ r) = map_option (Cons (Lit v)) (json_tokens r)"
  shows "lexes_value t"
  unfolding lexes_value_def
proof (intro exI conjI allI impI)
  show "value_toks [Lit v]" by (rule value_toks_elems_toks_members_toks.lit)
  fix r assume "good_rest r"
  with assms show "json_tokens (t @ r) = map_option ((@) [Lit v]) (json_tokens r)"
    by (simp add: map_option_cons_single)
qed

lemma lexes_null: "lexes_value ''null''"
  by (rule lexes_value_token [of _ Null]) (simp add: json_tokens_literal [simplified])

lemma lexes_bool: "lexes_value (if b then ''true'' else ''false'')"
  by (cases b; rule lexes_value_token [of _ "Bool b"]) (simp_all add: json_tokens_literal [simplified])

lemma lexes_string: "lexes_value (QuoteJSONString s)"
proof -
  obtain s' where "\<forall>r. json_tokens (QuoteJSONString s @ r) = map_option (Cons (Lit (Str s'))) (json_tokens r)"
    using json_tokens_string by blast
  then show ?thesis by (intro lexes_value_token [of _ "Str s'"]) simp
qed

lemma lexes_number: "lexes_value (Number_toString (Dec m e))"
proof -
  obtain sg ip fp ex where sh: "Number_toString (Dec m e) = sg @ number_text ip fp ex"
      "sg = [] \<or> sg = ''-''" "number_parts ip fp ex"
    using Number_toString_shape by blast
  obtain x where "\<forall>r. good_rest r \<longrightarrow>
      json_tokens ((sg @ number_text ip fp ex) @ r) = map_option (Cons (Lit (Num x))) (json_tokens r)"
    using json_tokens_number [OF sh(3,2)] by blast
  then show ?thesis unfolding sh(1) by (rule lexes_value_token)
qed

lemma lexes_elems:
  assumes "es \<noteq> []" "list_all lexes_value es"
  shows "\<exists>E. elems_toks E
           \<and> (\<forall>r. json_tokens (join_with '','' es @ CHR '']'' # r)
                    = map_option ((@) (E @ [RBracket])) (json_tokens r))"
  using assms
proof (induction es)
  case Nil
  then show ?case by simp
next
  case (Cons e es)
  from Cons.prems obtain T where T: "value_toks T"
      "\<And>r. good_rest r \<Longrightarrow> json_tokens (e @ r) = map_option ((@) T) (json_tokens r)"
    by (auto simp: lexes_value_def)
  show ?case
  proof (cases es)
    case Nil
    have "\<forall>r. json_tokens (join_with '','' (e # es) @ CHR '']'' # r)
             = map_option ((@) (T @ [RBracket])) (json_tokens r)"
      by (simp add: Nil T(2) good_rest_punct json_tokens_punct map_option_app_cons
          del: json_tokens.simps)
    moreover have "elems_toks T" using T(1) by (rule value_toks_elems_toks_members_toks.elem1)
    ultimately show ?thesis by blast
  next
    case (Cons y ys)
    then have "es \<noteq> []" "list_all lexes_value es" using Cons.prems by simp_all
    from Cons.IH [OF this] obtain E where E: "elems_toks E"
        "\<And>r. json_tokens (join_with '','' es @ CHR '']'' # r)
               = map_option ((@) (E @ [RBracket])) (json_tokens r)"
      by blast
    have "\<forall>r. json_tokens (join_with '','' (e # es) @ CHR '']'' # r)
             = map_option ((@) ((T @ Comma # E) @ [RBracket])) (json_tokens r)"
      using E(2)
      by (simp add: Cons T(2) good_rest_punct json_tokens_punct map_option_app_cons
          map_option_app_app map_option_cons_app del: json_tokens.simps)
    moreover have "elems_toks (T @ Comma # E)"
      using T(1) E(1) by (rule value_toks_elems_toks_members_toks.elems)
    ultimately show ?thesis by blast
  qed
qed
lemma lexes_member:
  assumes "lexes_value t"
  shows "\<exists>k' T. value_toks T
           \<and> (\<forall>r. good_rest r \<longrightarrow>
                  json_tokens ((QuoteJSONString k @ '':'' @ t) @ r)
                  = map_option ((@) (Lit (Str k') # Colon # T)) (json_tokens r))"
proof -
  obtain k' where k': "\<And>r. json_tokens (QuoteJSONString k @ r) = map_option (Cons (Lit (Str k'))) (json_tokens r)"
    using json_tokens_string by blast
  obtain T where T: "value_toks T"
      "\<And>r. good_rest r \<Longrightarrow> json_tokens (t @ r) = map_option ((@) T) (json_tokens r)"
    using assms by (auto simp: lexes_value_def)
  have "\<forall>r. good_rest r \<longrightarrow>
          json_tokens ((QuoteJSONString k @ '':'' @ t) @ r)
          = map_option ((@) (Lit (Str k') # Colon # T)) (json_tokens r)"
    by (simp add: k' T(2) json_tokens_punct map_option_cons_app del: json_tokens.simps)
  with T(1) show ?thesis by blast
qed

lemma lexes_members:
  assumes "ms \<noteq> []" "\<forall>p \<in> set ms. lexes_value (snd p)"
  shows "\<exists>M. members_toks M
           \<and> (\<forall>r. json_tokens
                      (join_with '','' (map (\<lambda>(k, t). QuoteJSONString k @ '':'' @ t) ms) @ CHR ''}'' # r)
                    = map_option ((@) (M @ [RBrace])) (json_tokens r))"
  using assms
proof (induction ms)
  case Nil
  then show ?case by simp
next
  case (Cons p ms)
  obtain k t where p: "p = (k, t)" by (cases p)
  with Cons.prems have "lexes_value t" by simp
  from lexes_member [OF this, of k] obtain k' T where T: "value_toks T"
      "\<And>r. good_rest r \<Longrightarrow> json_tokens ((QuoteJSONString k @ '':'' @ t) @ r)
             = map_option ((@) (Lit (Str k') # Colon # T)) (json_tokens r)"
    by blast
  show ?case
  proof (cases ms)
    case Nil
    have "\<forall>r. json_tokens (join_with '','' (map (\<lambda>(k, t). QuoteJSONString k @ '':'' @ t) (p # ms))
                    @ CHR ''}'' # r)
             = map_option ((@) ((Lit (Str k') # Colon # T) @ [RBrace])) (json_tokens r)"
      using T(2) [OF good_rest_punct(3)]
      by (simp add: Nil p json_tokens_punct map_option_app_cons map_option_cons_app
          del: json_tokens.simps)
    moreover have "members_toks (Lit (Str k') # Colon # T)"
      using T(1) by (rule value_toks_elems_toks_members_toks.mem1)
    ultimately show ?thesis by blast
  next
    case (Cons q qs)
    then have "ms \<noteq> []" "\<forall>p \<in> set ms. lexes_value (snd p)" using Cons.prems by simp_all
    from Cons.IH [OF this] obtain M where M: "members_toks M"
        "\<And>r. json_tokens (join_with '','' (map (\<lambda>(k, t). QuoteJSONString k @ '':'' @ t) ms)
                  @ CHR ''}'' # r)
               = map_option ((@) (M @ [RBrace])) (json_tokens r)"
      by blast
    have "\<forall>r. json_tokens (join_with '','' (map (\<lambda>(k, t). QuoteJSONString k @ '':'' @ t) (p # ms))
                    @ CHR ''}'' # r)
             = map_option ((@) ((Lit (Str k') # Colon # T @ Comma # M) @ [RBrace])) (json_tokens r)"
      using T(2) [OF good_rest_punct(1)] M(2)
      by (simp add: Cons p json_tokens_punct map_option_app_cons map_option_cons_app
          map_option_app_app del: json_tokens.simps)
    moreover have "members_toks (Lit (Str k') # Colon # T @ Comma # M)"
      using T(1) M(1) by (rule value_toks_elems_toks_members_toks.mems)
    ultimately show ?thesis by blast
  qed
qed

lemma lexes_array:
  assumes "list_all lexes_value es"
  shows "lexes_value (''['' @ join_with '','' es @ '']'')"
proof (cases "es = []")
  case True
  have "\<forall>r. good_rest r \<longrightarrow>
      json_tokens ((''['' @ join_with '','' es @ '']'') @ r) = map_option ((@) [LBracket, RBracket]) (json_tokens r)"
    by (simp add: True json_tokens_punct map_option_app_app map_option_cons_single del: json_tokens.simps)
  then show ?thesis
    unfolding lexes_value_def using value_toks_elems_toks_members_toks.arr0 by blast
next
  case False
  from lexes_elems [OF False assms] obtain E where E: "elems_toks E"
      "\<And>r. json_tokens (join_with '','' es @ CHR '']'' # r)
             = map_option ((@) (E @ [RBracket])) (json_tokens r)"
    by blast
  have "\<forall>r. good_rest r \<longrightarrow>
      json_tokens ((''['' @ join_with '','' es @ '']'') @ r)
      = map_option ((@) (LBracket # E @ [RBracket])) (json_tokens r)"
    by (simp add: E(2) json_tokens_punct map_option_cons_app del: json_tokens.simps)
  moreover have "value_toks (LBracket # E @ [RBracket])"
    using E(1) by (rule value_toks_elems_toks_members_toks.arr)
  ultimately show ?thesis unfolding lexes_value_def by blast
qed

lemma lexes_object:
  assumes "\<forall>p \<in> set ms. lexes_value (snd p)"
  shows "lexes_value (''{'' @ join_with '','' (map (\<lambda>(k, t). QuoteJSONString k @ '':'' @ t) ms) @ ''}'')"
proof (cases "ms = []")
  case True
  have "\<forall>r. good_rest r \<longrightarrow>
      json_tokens ((''{'' @ join_with '','' (map (\<lambda>(k, t). QuoteJSONString k @ '':'' @ t) ms) @ ''}'') @ r)
      = map_option ((@) [LBrace, RBrace]) (json_tokens r)"
    by (simp add: True json_tokens_punct map_option_app_app map_option_cons_single del: json_tokens.simps)
  then show ?thesis
    unfolding lexes_value_def using value_toks_elems_toks_members_toks.obj0 by blast
next
  case False
  from lexes_members [OF False assms] obtain M where M: "members_toks M"
      "\<And>r. json_tokens (join_with '','' (map (\<lambda>(k, t). QuoteJSONString k @ '':'' @ t) ms) @ CHR ''}'' # r)
             = map_option ((@) (M @ [RBrace])) (json_tokens r)"
    by blast
  have "\<forall>r. good_rest r \<longrightarrow>
      json_tokens ((''{'' @ join_with '','' (map (\<lambda>(k, t). QuoteJSONString k @ '':'' @ t) ms) @ ''}'') @ r)
      = map_option ((@) (LBrace # M @ [RBrace])) (json_tokens r)"
    using M(2) by (simp add: json_tokens_punct map_option_cons_app del: json_tokens.simps)
  moreover have "value_toks (LBrace # M @ [RBrace])"
    using M(1) by (rule value_toks_elems_toks_members_toks.obj)
  ultimately show ?thesis unfolding lexes_value_def by blast
qed

lemma own_properties_set: "set (own_properties ps) \<subseteq> set ps"
  by (auto simp: own_properties_def)

lemma Serialize_lexes:
  "(\<forall>t. SerializeJSONProperty v = Some t \<longrightarrow> lexes_value t)"
  "list_all lexes_value (SerializeJSONArray xs)"
  "(\<forall>p \<in> set (SerializeJSONObject ps). lexes_value (snd p))"
proof (induction v and xs and ps rule: SerializeJSONProperty_SerializeJSONArray_SerializeJSONObject.induct)
  case 1
  show ?case by simp
next
  case 2
  show ?case by (simp add: lexes_null)
next
  case (3 b)
  show ?case using lexes_bool [of b] by simp
next
  case (4 n)
  show ?case by (cases n) (simp_all add: lexes_null lexes_number)
next
  case (5 s)
  show ?case by (simp add: lexes_string)
next
  case (6 xs)
  then show ?case using lexes_array [of "SerializeJSONArray xs"] by simp
next
  case (7 ps)
  then have "\<forall>p \<in> set (own_properties (SerializeJSONObject ps)). lexes_value (snd p)"
    using own_properties_set by blast
  from lexes_object [OF this] show ?case by simp
next
  case 8
  show ?case by simp
next
  case (9 x xs)
  then show ?case by (cases "SerializeJSONProperty x") (simp_all add: lexes_null)
next
  case 10
  show ?case by simp
next
  case (11 k v ps)
  then show ?case by (cases "SerializeJSONProperty v") simp_all
qed
lemma deliver_takes_value:
  "takes_value fs \<Longrightarrow> \<exists>st. deliver v fs = Some st"
  by (cases "(v, fs)" rule: deliver.cases) simp_all

lemma parse_grammar:
  "value_toks T \<Longrightarrow>
     \<forall>m fs ts. takes_value fs \<longrightarrow> (m = Value \<or> m = ValueOrClose) \<longrightarrow>
       (\<exists>v. parse_tokens (m, fs) (T @ ts)
            = (case deliver v fs of None \<Rightarrow> None | Some st \<Rightarrow> parse_tokens st ts))"
  "elems_toks E \<Longrightarrow>
     \<forall>m fs xs ts. (m = Value \<or> m = ValueOrClose) \<longrightarrow>
       (\<exists>ys. parse_tokens (m, InArray xs # fs) (E @ ts)
            = parse_tokens (CommaOrClose, InArray ys # fs) ts)"
  "members_toks M \<Longrightarrow>
     \<forall>m fs ps ts. (m = KeyOrClose \<or> m = Key) \<longrightarrow>
       (\<exists>qs. parse_tokens (m, InObject ps # fs) (M @ ts)
            = parse_tokens (CommaOrClose, InObject qs # fs) ts)"
proof (induction rule: value_toks_elems_toks_members_toks.inducts)
  case (lit v)
  show ?case
  proof (intro allI impI)
    fix m :: expect and fs ts
    assume "takes_value fs" "m = Value \<or> m = ValueOrClose"
    then have "parse_tokens (m, fs) ([Lit v] @ ts)
        = (case deliver v fs of None \<Rightarrow> None | Some st \<Rightarrow> parse_tokens st ts)"
      by auto
    then show "\<exists>v'. parse_tokens (m, fs) ([Lit v] @ ts)
        = (case deliver v' fs of None \<Rightarrow> None | Some st \<Rightarrow> parse_tokens st ts)" by (rule exI)
  qed
next
  case arr0
  show ?case
  proof (intro allI impI)
    fix m :: expect and fs ts
    assume "takes_value fs" "m = Value \<or> m = ValueOrClose"
    then have "parse_tokens (m, fs) ([LBracket, RBracket] @ ts)
        = (case deliver (Arr []) fs of None \<Rightarrow> None | Some st \<Rightarrow> parse_tokens st ts)"
      by auto
    then show "\<exists>v'. parse_tokens (m, fs) ([LBracket, RBracket] @ ts)
        = (case deliver v' fs of None \<Rightarrow> None | Some st \<Rightarrow> parse_tokens st ts)" by (rule exI)
  qed
next
  case (arr E)
  show ?case
  proof (intro allI impI)
    fix m :: expect and fs ts
    assume m: "takes_value fs" "m = Value \<or> m = ValueOrClose"
    from arr.IH obtain ys where
      "parse_tokens (ValueOrClose, InArray [] # fs) (E @ RBracket # ts)
        = parse_tokens (CommaOrClose, InArray ys # fs) (RBracket # ts)"
      by blast
    with m have "parse_tokens (m, fs) ((LBracket # E @ [RBracket]) @ ts)
        = (case deliver (Arr ys) fs of None \<Rightarrow> None | Some st \<Rightarrow> parse_tokens st ts)"
      by auto
    then show "\<exists>v'. parse_tokens (m, fs) ((LBracket # E @ [RBracket]) @ ts)
        = (case deliver v' fs of None \<Rightarrow> None | Some st \<Rightarrow> parse_tokens st ts)" by (rule exI)
  qed
next
  case obj0
  show ?case
  proof (intro allI impI)
    fix m :: expect and fs ts
    assume "takes_value fs" "m = Value \<or> m = ValueOrClose"
    then have "parse_tokens (m, fs) ([LBrace, RBrace] @ ts)
        = (case deliver (Obj []) fs of None \<Rightarrow> None | Some st \<Rightarrow> parse_tokens st ts)"
      by auto
    then show "\<exists>v'. parse_tokens (m, fs) ([LBrace, RBrace] @ ts)
        = (case deliver v' fs of None \<Rightarrow> None | Some st \<Rightarrow> parse_tokens st ts)" by (rule exI)
  qed
next
  case (obj M)
  show ?case
  proof (intro allI impI)
    fix m :: expect and fs ts
    assume m: "takes_value fs" "m = Value \<or> m = ValueOrClose"
    from obj.IH obtain qs where
      "parse_tokens (KeyOrClose, InObject [] # fs) (M @ RBrace # ts)
        = parse_tokens (CommaOrClose, InObject qs # fs) (RBrace # ts)"
      by blast
    with m have "parse_tokens (m, fs) ((LBrace # M @ [RBrace]) @ ts)
        = (case deliver (Obj qs) fs of None \<Rightarrow> None | Some st \<Rightarrow> parse_tokens st ts)"
      by auto
    then show "\<exists>v'. parse_tokens (m, fs) ((LBrace # M @ [RBrace]) @ ts)
        = (case deliver v' fs of None \<Rightarrow> None | Some st \<Rightarrow> parse_tokens st ts)" by (rule exI)
  qed
next
  case (elem1 T)
  show ?case
  proof (intro allI impI)
    fix m :: expect and fs xs ts
    assume m: "m = Value \<or> m = ValueOrClose"
    have "takes_value (InArray xs # fs)" by simp
    with elem1.IH m obtain v where
      "parse_tokens (m, InArray xs # fs) (T @ ts)
        = (case deliver v (InArray xs # fs) of None \<Rightarrow> None | Some st \<Rightarrow> parse_tokens st ts)"
      by blast
    then have "parse_tokens (m, InArray xs # fs) (T @ ts)
        = parse_tokens (CommaOrClose, InArray (xs @ [v]) # fs) ts"
      by simp
    then show "\<exists>ys. parse_tokens (m, InArray xs # fs) (T @ ts)
        = parse_tokens (CommaOrClose, InArray ys # fs) ts" by (rule exI)
  qed
next
  case (elems T E)
  show ?case
  proof (intro allI impI)
    fix m :: expect and fs xs ts
    assume m: "m = Value \<or> m = ValueOrClose"
    have "takes_value (InArray xs # fs)" by simp
    with elems.IH(1) m obtain v where
      "parse_tokens (m, InArray xs # fs) (T @ Comma # E @ ts)
        = (case deliver v (InArray xs # fs) of None \<Rightarrow> None
           | Some st \<Rightarrow> parse_tokens st (Comma # E @ ts))"
      by blast
    then have 1: "parse_tokens (m, InArray xs # fs) (T @ Comma # E @ ts)
        = parse_tokens (Value, InArray (xs @ [v]) # fs) (E @ ts)"
      by simp
    from elems.IH(2) obtain ys where
      "parse_tokens (Value, InArray (xs @ [v]) # fs) (E @ ts)
        = parse_tokens (CommaOrClose, InArray ys # fs) ts"
      by blast
    with 1 have "parse_tokens (m, InArray xs # fs) ((T @ Comma # E) @ ts)
        = parse_tokens (CommaOrClose, InArray ys # fs) ts"
      by simp
    then show "\<exists>ys. parse_tokens (m, InArray xs # fs) ((T @ Comma # E) @ ts)
        = parse_tokens (CommaOrClose, InArray ys # fs) ts" by (rule exI)
  qed
next
  case (mem1 T k)
  show ?case
  proof (intro allI impI)
    fix m :: expect and fs ps ts
    assume m: "m = KeyOrClose \<or> m = Key"
    have "takes_value (InMember ps k # fs)" by simp
    with mem1.IH obtain v where
      "parse_tokens (Value, InMember ps k # fs) (T @ ts)
        = (case deliver v (InMember ps k # fs) of None \<Rightarrow> None | Some st \<Rightarrow> parse_tokens st ts)"
      by blast
    with m have "parse_tokens (m, InObject ps # fs) ((Lit (Str k) # Colon # T) @ ts)
        = parse_tokens (CommaOrClose, InObject (obj_put ps k v) # fs) ts"
      by auto
    then show "\<exists>qs. parse_tokens (m, InObject ps # fs) ((Lit (Str k) # Colon # T) @ ts)
        = parse_tokens (CommaOrClose, InObject qs # fs) ts" by (rule exI)
  qed
next
  case (mems T M k)
  show ?case
  proof (intro allI impI)
    fix m :: expect and fs ps ts
    assume m: "m = KeyOrClose \<or> m = Key"
    have "takes_value (InMember ps k # fs)" by simp
    with mems.IH(1) obtain v where
      "parse_tokens (Value, InMember ps k # fs) (T @ Comma # M @ ts)
        = (case deliver v (InMember ps k # fs) of None \<Rightarrow> None
           | Some st \<Rightarrow> parse_tokens st (Comma # M @ ts))"
      by blast
    with m have 1: "parse_tokens (m, InObject ps # fs) ((Lit (Str k) # Colon # T @ Comma # M) @ ts)
        = parse_tokens (Key, InObject (obj_put ps k v) # fs) (M @ ts)"
      by auto
    from mems.IH(2) obtain qs where
      "parse_tokens (Key, InObject (obj_put ps k v) # fs) (M @ ts)
        = parse_tokens (CommaOrClose, InObject qs # fs) ts"
      by blast
    with 1 have "parse_tokens (m, InObject ps # fs) ((Lit (Str k) # Colon # T @ Comma # M) @ ts)
        = parse_tokens (CommaOrClose, InObject qs # fs) ts"
      by simp
    then show "\<exists>qs. parse_tokens (m, InObject ps # fs) ((Lit (Str k) # Colon # T @ Comma # M) @ ts)
        = parse_tokens (CommaOrClose, InObject qs # fs) ts" by (rule exI)
  qed
qed

lemma JSON_parse_lexes_value:
  assumes "lexes_value t"
  shows "JSON_parse t \<noteq> None"
proof -
  obtain T where T: "value_toks T" "json_tokens (t @ []) = map_option ((@) T) (json_tokens [])"
    using assms good_rest_punct(4) unfolding lexes_value_def by blast
  then have toks: "json_tokens t = Some T" by simp
  have "takes_value []" by simp
  with parse_grammar(1) [OF T(1)] obtain v where
    "parse_tokens (Value, []) (T @ []) = (case deliver v [] of None \<Rightarrow> None | Some st \<Rightarrow> parse_tokens st [])"
    by blast
  then have "parse_tokens (Value, []) T = Some (Done v, [])" by simp
  with toks show ?thesis by (simp add: JSON_parse_def)
qed

theorem JSON_parse_stringify:
  "v \<noteq> Undefined \<Longrightarrow> \<exists>t. JSON_stringify v = Str t \<and> t \<noteq> [] \<and> JSON_parse t \<noteq> None"
proof -
  assume "v \<noteq> Undefined"
  then obtain t where t: "SerializeJSONProperty v = Some t" by (cases v) simp_all
  then have "lexes_value t" using Serialize_lexes(1) by blast
  then have p: "JSON_parse t \<noteq> None" by (rule JSON_parse_lexes_value)
  then have "t \<noteq> []" by (auto simp: JSON_parse_def)
  with t p show ?thesis by (simp add: JSON_stringify_def)
qed

subsection \<open>Hydration\<close>

lemma AuthProvider_absent:
  "st ''userInfo'' = None \<Longrightarrow>
   AuthProvider st = Inr \<lparr>token = Null, expiresAt = getItem st ''expiresAt'', userInfo = Obj []\<rparr>"
  by (simp add: AuthProvider_def getItem_def)

lemma AuthProvider_present:
  "st ''userInfo'' = Some u \<Longrightarrow>
   AuthProvider st =
     (if u = [] then Inr \<lparr>token = Null, expiresAt = getItem st ''expiresAt'', userInfo = Obj []\<rparr>
      else case JSON_parse u of
             None \<Rightarrow> Inl SyntaxError
           | Some v \<Rightarrow> Inr \<lparr>token = Null, expiresAt = getItem st ''expiresAt'', userInfo = v\<rparr>)"
  by (auto simp: AuthProvider_def getItem_def Let_def split: option.splits)

lemma AuthProvider_token: "AuthProvider st = Inr a \<Longrightarrow> token a = Null"
  by (auto simp: AuthProvider_def Let_def split: if_splits option.splits)

lemma AuthProvider_reads:
  "st ''userInfo'' = st' ''userInfo'' \<Longrightarrow> st ''expiresAt'' = st' ''expiresAt'' \<Longrightarrow>
   AuthProvider st = AuthProvider st'"
  by (simp add: AuthProvider_def getItem_def)

text \<open>
  \<^bold>\<open>C1\<close>, as amended. The initial state is not total over the contents of the storage:
  building it raises a \<^verbatim>\<open>SyntaxError\<close> exactly when the stored \<^verbatim>\<open>userInfo\<close> is a
  non-empty text that \<^verbatim>\<open>JSON.parse\<close> rejects. The empty identity record is the
  fallback for an absent or empty \<^verbatim>\<open>userInfo\<close> only; a text that parses gives the
  parsed value. Whenever a state is built, its token is \<^verbatim>\<open>null\<close> and its
  \<^verbatim>\<open>expiresAt\<close> is the stored text, or \<^verbatim>\<open>null\<close> when there is none.
\<close>

theorem AuthProvider_raises_iff_unparsable:
  "(AuthProvider st = Inl e \<longleftrightarrow>
      e = SyntaxError \<and> (\<exists>u. st ''userInfo'' = Some u \<and> u \<noteq> [] \<and> JSON_parse u = None))
   \<and> (st ''userInfo'' = None \<or> st ''userInfo'' = Some [] \<longrightarrow>
        AuthProvider st = Inr \<lparr>token = Null, expiresAt = getItem st ''expiresAt'', userInfo = Obj []\<rparr>)
   \<and> (st ''userInfo'' = Some u \<and> u \<noteq> [] \<and> JSON_parse u = Some v \<longrightarrow>
        AuthProvider st = Inr \<lparr>token = Null, expiresAt = getItem st ''expiresAt'', userInfo = v\<rparr>)"
proof (cases "st ''userInfo''")
  case None
  then show ?thesis by (simp add: AuthProvider_absent)
next
  case (Some w)
  then show ?thesis
    by (cases "JSON_parse w") (auto simp: AuthProvider_present)
qed

text \<open>The three cases at work: the text \<^verbatim>\<open>undefined\<close>, an empty storage, and a stored
  administrator with an expiry.\<close>

theorem AuthProvider_raises_iff_unparsable_witness:
  "JSON_parse ''undefined'' = None
   \<and> AuthProvider [''userInfo'' \<mapsto> ''undefined''] = Inl SyntaxError
   \<and> AuthProvider Map.empty = Inr \<lparr>token = Null, expiresAt = Null, userInfo = Obj []\<rparr>
   \<and> AuthProvider [''userInfo'' \<mapsto> (''{'' @ dq @ ''role'' @ dq @ '':'' @ dq @ ''admin'' @ dq @ ''}''), ''expiresAt'' \<mapsto> ''2000000000'']
       = Inr \<lparr>token = Null, expiresAt = Str ''2000000000'', userInfo = Obj [(''role'', Str ''admin'')]\<rparr>"
  using AuthProvider_raises_iff_unparsable
          [where st = "[''userInfo'' \<mapsto> ''undefined'']" and e = SyntaxError]
        AuthProvider_raises_iff_unparsable [where st = Map.empty]
        AuthProvider_raises_iff_unparsable
          [where st = "[''userInfo'' \<mapsto> (''{'' @ dq @ ''role'' @ dq @ '':'' @ dq @ ''admin'' @ dq @ ''}''), ''expiresAt'' \<mapsto> ''2000000000'']"
             and u = "''{'' @ dq @ ''role'' @ dq @ '':'' @ dq @ ''admin'' @ dq @ ''}''" and v = "Obj [(''role'', Str ''admin'')]"]
  by (simp add: parse_undefined parse_admin getItem_def)

text \<open>The claim as it was stated, that no stored text makes the construction raise,
  fails on a text cut short.\<close>

theorem AuthProvider_unparsable_counterexample:
  "AuthProvider [''userInfo'' \<mapsto> ''{''] = Inl SyntaxError"
  by (simp add: AuthProvider_present parse_open_brace)

subsection \<open>Installing a session\<close>

lemma AuthProvider_error: "AuthProvider st = Inl e \<Longrightarrow> e = SyntaxError"
  by (auto simp: AuthProvider_def Let_def split: if_splits option.splits)

lemma AuthProvider_written_defined:
  assumes "u \<noteq> Undefined"
  shows "\<exists>i. AuthProvider (st(''userInfo'' \<mapsto> ToString (JSON_stringify u), ''expiresAt'' \<mapsto> y)) = Inr i"
proof -
  obtain t where t: "JSON_stringify u = Str t" "t \<noteq> []" "JSON_parse t \<noteq> None"
    using JSON_parse_stringify [OF assms] by blast
  then obtain v where "JSON_parse t = Some v" by blast
  with t show ?thesis by (simp add: AuthProvider_present)
qed

lemma AuthProvider_written_undefined:
  "AuthProvider (st(''userInfo'' \<mapsto> ToString (JSON_stringify Undefined), ''expiresAt'' \<mapsto> y))
   = Inl SyntaxError"
  by (simp add: AuthProvider_present ToString_stringify_Undefined parse_undefined)

lemma setAuthState_written:
  "setAuthState a (s\<lparr>localStorage := st\<rparr>) =
     (case AuthProvider st of
        Inl e \<Rightarrow> Inl (e, s\<lparr>localStorage := st\<rparr>)
      | Inr i \<Rightarrow> Inr (s\<lparr>localStorage := st, authState := a\<rparr>))"
  by (simp add: setAuthState_def render_def split: sum.splits)

lemma setAuthInfo_Obj:
  "setAuthInfo (Obj ps) s =
     setAuthState
       \<lparr>token = field ps ''token'', expiresAt = field ps ''expiresAt'', userInfo = field ps ''userInfo''\<rparr>
       (s\<lparr>localStorage :=
            (localStorage s)
              (''userInfo'' \<mapsto> ToString (JSON_stringify (field ps ''userInfo'')),
               ''expiresAt'' \<mapsto> ToString (field ps ''expiresAt''))\<rparr>)"
  by (simp add: setAuthInfo_def setItem_def)

lemma setAuthInfo_defined:
  assumes "field ps ''userInfo'' \<noteq> Undefined"
  shows "setAuthInfo (Obj ps) s =
     Inr (s\<lparr>localStorage :=
              (localStorage s)
                (''userInfo'' \<mapsto> ToString (JSON_stringify (field ps ''userInfo'')),
                 ''expiresAt'' \<mapsto> ToString (field ps ''expiresAt'')),
            authState :=
              \<lparr>token = field ps ''token'', expiresAt = field ps ''expiresAt'',
               userInfo = field ps ''userInfo''\<rparr>\<rparr>)"
proof -
  obtain i where "AuthProvider ((localStorage s)
      (''userInfo'' \<mapsto> ToString (JSON_stringify (field ps ''userInfo'')),
       ''expiresAt'' \<mapsto> ToString (field ps ''expiresAt''))) = Inr i"
    using AuthProvider_written_defined [OF assms] by blast
  then show ?thesis by (simp add: setAuthInfo_Obj setAuthState_written)
qed

lemma setAuthInfo_undefined:
  assumes "field ps ''userInfo'' = Undefined"
  shows "setAuthInfo (Obj ps) s =
     Inl (SyntaxError,
          s\<lparr>localStorage :=
              (localStorage s)
                (''userInfo'' \<mapsto> ''undefined'', ''expiresAt'' \<mapsto> ToString (field ps ''expiresAt''))\<rparr>)"
proof -
  have "AuthProvider ((localStorage s)
      (''userInfo'' \<mapsto> ToString (JSON_stringify (field ps ''userInfo'')),
       ''expiresAt'' \<mapsto> ToString (field ps ''expiresAt''))) = Inl SyntaxError"
    unfolding assms by (rule AuthProvider_written_undefined)
  then show ?thesis
    unfolding setAuthInfo_Obj setAuthState_written
    by (simp add: assms ToString_stringify_Undefined)
qed

lemma setAuthState_error: "setAuthState a s = Inl (e, s') \<Longrightarrow> e = SyntaxError"
  by (auto simp: setAuthState_def render_def split: sum.splits dest: AuthProvider_error)

lemma setAuthInfo_TypeError_iff:
  "(\<exists>s'. setAuthInfo a s = Inl (TypeError, s')) \<longleftrightarrow> a = Null \<or> a = Undefined"
proof
  assume "\<exists>s'. setAuthInfo a s = Inl (TypeError, s')"
  then obtain s' where e: "setAuthInfo a s = Inl (TypeError, s')" by blast
  show "a = Null \<or> a = Undefined"
  proof (rule ccontr)
    assume "\<not> (a = Null \<or> a = Undefined)"
    then obtain t u x where "get_property a ''token'' = Inr t" "get_property a ''userInfo'' = Inr u"
        "get_property a ''expiresAt'' = Inr x"
      by (cases a) simp_all
    with e obtain b s1 where "setAuthState b s1 = Inl (TypeError, s')"
      by (simp add: setAuthInfo_def)
    then show False using setAuthState_error by fastforce
  qed
next
  assume "a = Null \<or> a = Undefined"
  then show "\<exists>s'. setAuthInfo a s = Inl (TypeError, s')"
    by (auto simp: setAuthInfo_def)
qed

lemma setAuthInfo_nullish: "a = Null \<or> a = Undefined \<Longrightarrow> setAuthInfo a s = Inl (TypeError, s)"
  by (auto simp: setAuthInfo_def)

text \<open>
  \<^bold>\<open>C2\<close>, as amended. \<^verbatim>\<open>setAuthInfo\<close> validates none of its three fields. The only
  failure at the call is the \<^verbatim>\<open>TypeError\<close> of the destructuring, when the argument
  is itself \<^verbatim>\<open>null\<close> or \<^verbatim>\<open>undefined\<close>, before anything is written. A call on an
  object that lacks \<^verbatim>\<open>token\<close> or \<^verbatim>\<open>expiresAt\<close>, with an identity other than
  \<^verbatim>\<open>undefined\<close>, returns and installs \<^verbatim>\<open>undefined\<close> for the missing field; a
  missing \<^verbatim>\<open>expiresAt\<close> is stored as the text \<^verbatim>\<open>undefined\<close>. A call that lacks
  \<^verbatim>\<open>userInfo\<close>, or gives \<^verbatim>\<open>undefined\<close> for it, is not refused either: the text
  \<^verbatim>\<open>undefined\<close> is stored under \<^verbatim>\<open>userInfo\<close>, and the render that setting the
  state brings throws the \<^verbatim>\<open>SyntaxError\<close> of \<^verbatim>\<open>JSON.parse\<close>, with the storage
  already written and the state as it was.
\<close>

theorem setAuthInfo_no_validation:
  "((\<exists>s'. setAuthInfo a s = Inl (TypeError, s')) \<longleftrightarrow> a = Null \<or> a = Undefined)
   \<and> (a = Null \<or> a = Undefined \<longrightarrow> setAuthInfo a s = Inl (TypeError, s))
   \<and> (map_of ps ''token'' = None \<and> map_of ps ''userInfo'' = Some u \<and> u \<noteq> Undefined \<longrightarrow>
        (\<exists>s'. setAuthInfo (Obj ps) s = Inr s' \<and> token (authState s') = Undefined
              \<and> userInfo (authState s') = u \<and> expiresAt (authState s') = field ps ''expiresAt''))
   \<and> (map_of ps ''expiresAt'' = None \<and> map_of ps ''userInfo'' = Some u \<and> u \<noteq> Undefined \<longrightarrow>
        (\<exists>s'. setAuthInfo (Obj ps) s = Inr s' \<and> expiresAt (authState s') = Undefined
              \<and> userInfo (authState s') = u \<and> token (authState s') = field ps ''token''
              \<and> localStorage s' ''expiresAt'' = Some ''undefined''))
   \<and> (map_of ps ''userInfo'' = None \<or> map_of ps ''userInfo'' = Some Undefined \<longrightarrow>
        (\<exists>s'. setAuthInfo (Obj ps) s = Inl (SyntaxError, s')
              \<and> localStorage s' ''userInfo'' = Some ''undefined''
              \<and> authState s' = authState s))"
proof (intro conjI impI)
  show "(\<exists>s'. setAuthInfo a s = Inl (TypeError, s')) \<longleftrightarrow> a = Null \<or> a = Undefined"
    by (rule setAuthInfo_TypeError_iff)
  show "setAuthInfo a s = Inl (TypeError, s)" if "a = Null \<or> a = Undefined"
    using that by (rule setAuthInfo_nullish)
  show "\<exists>s'. setAuthInfo (Obj ps) s = Inr s' \<and> token (authState s') = Undefined
          \<and> userInfo (authState s') = u \<and> expiresAt (authState s') = field ps ''expiresAt''"
    if "map_of ps ''token'' = None \<and> map_of ps ''userInfo'' = Some u \<and> u \<noteq> Undefined"
  proof -
    from that have "field ps ''userInfo'' \<noteq> Undefined" by simp
    from setAuthInfo_defined [OF this, of s] that show ?thesis by simp
  qed
  show "\<exists>s'. setAuthInfo (Obj ps) s = Inr s' \<and> expiresAt (authState s') = Undefined
          \<and> userInfo (authState s') = u \<and> token (authState s') = field ps ''token''
          \<and> localStorage s' ''expiresAt'' = Some ''undefined''"
    if "map_of ps ''expiresAt'' = None \<and> map_of ps ''userInfo'' = Some u \<and> u \<noteq> Undefined"
  proof -
    from that have "field ps ''userInfo'' \<noteq> Undefined" by simp
    from setAuthInfo_defined [OF this, of s] that show ?thesis by simp
  qed
  show "\<exists>s'. setAuthInfo (Obj ps) s = Inl (SyntaxError, s')
          \<and> localStorage s' ''userInfo'' = Some ''undefined'' \<and> authState s' = authState s"
    if "map_of ps ''userInfo'' = None \<or> map_of ps ''userInfo'' = Some Undefined"
  proof -
    from that have "field ps ''userInfo'' = Undefined" by auto
    from setAuthInfo_undefined [OF this, of s] show ?thesis by simp
  qed
qed

text \<open>The cases at work: no argument; an administrator with an expiry and no token;
  an administrator with a token and no expiry; an empty object.\<close>

theorem setAuthInfo_no_validation_witness:
  "setAuthInfo Undefined \<lparr>localStorage = Map.empty, authState = \<lparr>token = Null, expiresAt = Null, userInfo = Obj []\<rparr>, history = []\<rparr> = Inl (TypeError, \<lparr>localStorage = Map.empty, authState = \<lparr>token = Null, expiresAt = Null, userInfo = Obj []\<rparr>, history = []\<rparr>)
   \<and> map_of [(''userInfo'', Obj [(''role'', Str ''admin'')]), (''expiresAt'', Num (Dec 2000000000 0))]
        ''token'' = None
   \<and> (\<exists>s'. setAuthInfo
               (Obj [(''userInfo'', Obj [(''role'', Str ''admin'')]),
                     (''expiresAt'', Num (Dec 2000000000 0))]) \<lparr>localStorage = Map.empty, authState = \<lparr>token = Null, expiresAt = Null, userInfo = Obj []\<rparr>, history = []\<rparr> = Inr s'
         \<and> token (authState s') = Undefined
         \<and> userInfo (authState s') = Obj [(''role'', Str ''admin'')]
         \<and> expiresAt (authState s') = Num (Dec 2000000000 0))
   \<and> map_of [(''token'', Str ''abc''), (''userInfo'', Obj [(''role'', Str ''admin'')])]
        ''expiresAt'' = None
   \<and> (\<exists>s'. setAuthInfo
               (Obj [(''token'', Str ''abc''), (''userInfo'', Obj [(''role'', Str ''admin'')])]) \<lparr>localStorage = Map.empty, authState = \<lparr>token = Null, expiresAt = Null, userInfo = Obj []\<rparr>, history = []\<rparr> = Inr s'
         \<and> expiresAt (authState s') = Undefined
         \<and> userInfo (authState s') = Obj [(''role'', Str ''admin'')]
         \<and> token (authState s') = Str ''abc''
         \<and> localStorage s' ''expiresAt'' = Some ''undefined'')
   \<and> map_of ([] :: (string \<times> jsval) list) ''userInfo'' = None
   \<and> (\<exists>s'. setAuthInfo (Obj []) \<lparr>localStorage = Map.empty, authState = \<lparr>token = Null, expiresAt = Null, userInfo = Obj []\<rparr>, history = []\<rparr> = Inl (SyntaxError, s')
         \<and> localStorage s' ''userInfo'' = Some ''undefined''
         \<and> authState s' = \<lparr>token = Null, expiresAt = Null, userInfo = Obj []\<rparr>)"
  using setAuthInfo_no_validation
          [where a = Undefined and s = "\<lparr>localStorage = Map.empty, authState = \<lparr>token = Null, expiresAt = Null, userInfo = Obj []\<rparr>, history = []\<rparr>"
             and ps = "[(''userInfo'', Obj [(''role'', Str ''admin'')]), (''expiresAt'', Num (Dec 2000000000 0))]"
             and u = "Obj [(''role'', Str ''admin'')]"]
        setAuthInfo_no_validation
          [where a = Undefined and s = "\<lparr>localStorage = Map.empty, authState = \<lparr>token = Null, expiresAt = Null, userInfo = Obj []\<rparr>, history = []\<rparr>"
             and ps = "[(''token'', Str ''abc''), (''userInfo'', Obj [(''role'', Str ''admin'')])]"
             and u = "Obj [(''role'', Str ''admin'')]"]
        setAuthInfo_no_validation [where a = Undefined and ps = "[]" and s = "\<lparr>localStorage = Map.empty, authState = \<lparr>token = Null, expiresAt = Null, userInfo = Obj []\<rparr>, history = []\<rparr>" and u = Undefined]
  by simp

text \<open>The claim as it was stated fails on a call that gives no token: the call
  returns, the render succeeds, and the session installed has an identity, an expiry
  and no token.\<close>

theorem setAuthInfo_missing_token_counterexample:
  "setAuthInfo (Obj [(''userInfo'', Obj [(''role'', Str ''admin'')]), (''expiresAt'', Num (Dec 2000000000 0))]) \<lparr>localStorage = Map.empty, authState = \<lparr>token = Null, expiresAt = Null, userInfo = Obj []\<rparr>, history = []\<rparr>
   = Inr \<lparr>localStorage = [''userInfo'' \<mapsto> (''{'' @ dq @ ''role'' @ dq @ '':'' @ dq @ ''admin'' @ dq @ ''}''), ''expiresAt'' \<mapsto> ''2000000000''],
          authState = \<lparr>token = Undefined, expiresAt = Num (Dec 2000000000 0),
                       userInfo = Obj [(''role'', Str ''admin'')]\<rparr>,
          history = []\<rparr>"
  by (simp add: setAuthInfo_Obj setAuthState_def render_def AuthProvider_present parse_admin js_eval)

text \<open>Once the render has thrown, the text stays in the storage, and the next start
  throws on it as well.\<close>

lemma setAuthInfo_SyntaxError_stays:
  "setAuthInfo a s = Inl (SyntaxError, s') \<Longrightarrow> AuthProvider (localStorage s') = Inl SyntaxError"
proof (cases "a = Null \<or> a = Undefined")
  case True
  assume "setAuthInfo a s = Inl (SyntaxError, s')"
  with True show ?thesis by (auto simp: setAuthInfo_def)
next
  case False
  assume e: "setAuthInfo a s = Inl (SyntaxError, s')"
  from False obtain t u x where "get_property a ''token'' = Inr t" "get_property a ''userInfo'' = Inr u"
      "get_property a ''expiresAt'' = Inr x"
    by (cases a) simp_all
  with e show ?thesis
    by (auto simp: setAuthInfo_def setAuthState_def render_def split: sum.splits)
qed

text \<open>
  \<^bold>\<open>C4\<close>, as amended. A call of \<^verbatim>\<open>setAuthInfo\<close> with an object that has the three
  properties, the identity not being \<^verbatim>\<open>undefined\<close>, returns; the state is then
  exactly the triple given, and it is the state that the render which follows shows;
  the storage is the one before with \<^verbatim>\<open>userInfo\<close> set to the serialized identity
  and \<^verbatim>\<open>expiresAt\<close> to the text of the expiry, every other key as it was, so that a
  storage that held no other key holds exactly these two. The token is written under
  no key: the new storage is given by an expression in which it does not occur. With
  the identity \<^verbatim>\<open>undefined\<close> the text \<^verbatim>\<open>undefined\<close> is stored, the render throws
  and the triple never becomes the state.
\<close>

theorem setAuthInfo_then_state:
  "(map_of ps ''token'' = Some t \<and> map_of ps ''userInfo'' = Some u \<and> map_of ps ''expiresAt'' = Some x
      \<and> u \<noteq> Undefined \<longrightarrow>
     (\<exists>s'. setAuthInfo (Obj ps) s = Inr s'
        \<and> authState s' = \<lparr>token = t, expiresAt = x, userInfo = u\<rparr>
        \<and> render s' = Inr \<lparr>token = t, expiresAt = x, userInfo = u\<rparr>
        \<and> localStorage s' =
            (localStorage s)(''userInfo'' \<mapsto> ToString (JSON_stringify u), ''expiresAt'' \<mapsto> ToString x)
        \<and> (\<forall>k. k \<noteq> ''userInfo'' \<and> k \<noteq> ''expiresAt'' \<longrightarrow> localStorage s' k = localStorage s k)
        \<and> (dom (localStorage s) \<subseteq> {''userInfo'', ''expiresAt''} \<longrightarrow>
              dom (localStorage s') = {''userInfo'', ''expiresAt''})
        \<and> history s' = history s))
   \<and> (map_of ps ''token'' = Some t \<and> map_of ps ''userInfo'' = Some Undefined
        \<and> map_of ps ''expiresAt'' = Some x \<longrightarrow>
        setAuthInfo (Obj ps) s =
          Inl (SyntaxError,
               s\<lparr>localStorage :=
                   (localStorage s)(''userInfo'' \<mapsto> ''undefined'', ''expiresAt'' \<mapsto> ToString x)\<rparr>))"
proof (intro conjI impI)
  assume h: "map_of ps ''token'' = Some t \<and> map_of ps ''userInfo'' = Some u
      \<and> map_of ps ''expiresAt'' = Some x \<and> u \<noteq> Undefined"
  let ?st = "(localStorage s)(''userInfo'' \<mapsto> ToString (JSON_stringify u), ''expiresAt'' \<mapsto> ToString x)"
  let ?s' = "s\<lparr>localStorage := ?st, authState := \<lparr>token = t, expiresAt = x, userInfo = u\<rparr>\<rparr>"
  from h have "field ps ''userInfo'' \<noteq> Undefined" by simp
  from setAuthInfo_defined [OF this, of s] h have r: "setAuthInfo (Obj ps) s = Inr ?s'" by simp
  obtain i where "AuthProvider ?st = Inr i"
    using AuthProvider_written_defined h by blast
  then have "render ?s' = Inr \<lparr>token = t, expiresAt = x, userInfo = u\<rparr>"
    by (simp add: render_def)
  moreover have "dom (localStorage s) \<subseteq> {''userInfo'', ''expiresAt''} \<longrightarrow>
      dom ?st = {''userInfo'', ''expiresAt''}" by auto
  ultimately show "\<exists>s'. setAuthInfo (Obj ps) s = Inr s'
        \<and> authState s' = \<lparr>token = t, expiresAt = x, userInfo = u\<rparr>
        \<and> render s' = Inr \<lparr>token = t, expiresAt = x, userInfo = u\<rparr>
        \<and> localStorage s' = ?st
        \<and> (\<forall>k. k \<noteq> ''userInfo'' \<and> k \<noteq> ''expiresAt'' \<longrightarrow> localStorage s' k = localStorage s k)
        \<and> (dom (localStorage s) \<subseteq> {''userInfo'', ''expiresAt''} \<longrightarrow>
              dom (localStorage s') = {''userInfo'', ''expiresAt''})
        \<and> history s' = history s"
    using r by (intro exI [of _ ?s']) simp
next
  assume h: "map_of ps ''token'' = Some t \<and> map_of ps ''userInfo'' = Some Undefined
      \<and> map_of ps ''expiresAt'' = Some x"
  then have "field ps ''userInfo'' = Undefined" by simp
  from setAuthInfo_undefined [OF this, of s] h
  show "setAuthInfo (Obj ps) s =
      Inl (SyntaxError,
           s\<lparr>localStorage :=
               (localStorage s)(''userInfo'' \<mapsto> ''undefined'', ''expiresAt'' \<mapsto> ToString x)\<rparr>)"
    by simp
qed

theorem setAuthInfo_then_state_witness:
  "map_of [(''token'', Str ''abc''), (''userInfo'', Obj [(''role'', Str ''admin'')]),
           (''expiresAt'', Num (Dec 2000000000 0))] ''token'' = Some (Str ''abc'')
   \<and> Obj [(''role'', Str ''admin'')] \<noteq> Undefined
   \<and> dom (localStorage \<lparr>localStorage = Map.empty, authState = \<lparr>token = Null, expiresAt = Null, userInfo = Obj []\<rparr>, history = []\<rparr>) \<subseteq> {''userInfo'', ''expiresAt''}
   \<and> (\<exists>s'. setAuthInfo
               (Obj [(''token'', Str ''abc''), (''userInfo'', Obj [(''role'', Str ''admin'')]),
                     (''expiresAt'', Num (Dec 2000000000 0))]) \<lparr>localStorage = Map.empty, authState = \<lparr>token = Null, expiresAt = Null, userInfo = Obj []\<rparr>, history = []\<rparr> = Inr s'
         \<and> authState s' = \<lparr>token = Str ''abc'', expiresAt = Num (Dec 2000000000 0),
                             userInfo = Obj [(''role'', Str ''admin'')]\<rparr>
         \<and> render s' = Inr \<lparr>token = Str ''abc'', expiresAt = Num (Dec 2000000000 0),
                             userInfo = Obj [(''role'', Str ''admin'')]\<rparr>
         \<and> localStorage s' = [''userInfo'' \<mapsto> (''{'' @ dq @ ''role'' @ dq @ '':'' @ dq @ ''admin'' @ dq @ ''}''), ''expiresAt'' \<mapsto> ''2000000000'']
         \<and> dom (localStorage s') = {''userInfo'', ''expiresAt''})
   \<and> map_of [(''token'', Str ''abc''), (''userInfo'', Undefined), (''expiresAt'', Str ''5'')]
        ''userInfo'' = Some Undefined
   \<and> setAuthInfo
        (Obj [(''token'', Str ''abc''), (''userInfo'', Undefined), (''expiresAt'', Str ''5'')]) \<lparr>localStorage = Map.empty, authState = \<lparr>token = Null, expiresAt = Null, userInfo = Obj []\<rparr>, history = []\<rparr>
      = Inl (SyntaxError,
             \<lparr>localStorage = [''userInfo'' \<mapsto> ''undefined'', ''expiresAt'' \<mapsto> ''5''],
              authState = \<lparr>token = Null, expiresAt = Null, userInfo = Obj []\<rparr>,
              history = []\<rparr>)"
proof -
  let ?ps = "[(''token'', Str ''abc''), (''userInfo'', Obj [(''role'', Str ''admin'')]),
              (''expiresAt'', Num (Dec 2000000000 0))]"
  let ?s = "\<lparr>localStorage = Map.empty, authState = \<lparr>token = Null, expiresAt = Null, userInfo = Obj []\<rparr>, history = []\<rparr>"
  have props: "map_of ?ps ''token'' = Some (Str ''abc'')
      \<and> map_of ?ps ''userInfo'' = Some (Obj [(''role'', Str ''admin'')])
      \<and> map_of ?ps ''expiresAt'' = Some (Num (Dec 2000000000 0))
      \<and> Obj [(''role'', Str ''admin'')] \<noteq> Undefined"
    by simp
  have small: "dom (localStorage ?s) \<subseteq> {''userInfo'', ''expiresAt''}"
    by simp
  from setAuthInfo_then_state [where ps = ?ps and s = ?s, THEN conjunct1, THEN mp, OF props]
  obtain s' where s': "setAuthInfo (Obj ?ps) ?s = Inr s'"
      "authState s' = \<lparr>token = Str ''abc'', expiresAt = Num (Dec 2000000000 0),
                         userInfo = Obj [(''role'', Str ''admin'')]\<rparr>"
      "render s' = Inr \<lparr>token = Str ''abc'', expiresAt = Num (Dec 2000000000 0),
                         userInfo = Obj [(''role'', Str ''admin'')]\<rparr>"
      "localStorage s' =
         (localStorage ?s)(''userInfo'' \<mapsto> ToString (JSON_stringify (Obj [(''role'', Str ''admin'')])),
                           ''expiresAt'' \<mapsto> ToString (Num (Dec 2000000000 0)))"
      "dom (localStorage ?s) \<subseteq> {''userInfo'', ''expiresAt''} \<longrightarrow>
         dom (localStorage s') = {''userInfo'', ''expiresAt''}"
    by (elim exE conjE) (rule that; assumption)
  have texts: "ToString (JSON_stringify (Obj [(''role'', Str ''admin'')])) = (''{'' @ dq @ ''role'' @ dq @ '':'' @ dq @ ''admin'' @ dq @ ''}'')"
      "ToString (Num (Dec 2000000000 0)) = ''2000000000''"
    by (simp_all add: js_eval)
  have "localStorage s' = [''userInfo'' \<mapsto> (''{'' @ dq @ ''role'' @ dq @ '':'' @ dq @ ''admin'' @ dq @ ''}''), ''expiresAt'' \<mapsto> ''2000000000'']"
    unfolding s'(4) texts by simp
  moreover have "dom (localStorage s') = {''userInfo'', ''expiresAt''}"
    using s'(5) small by (rule mp)
  moreover have "setAuthInfo
        (Obj [(''token'', Str ''abc''), (''userInfo'', Undefined), (''expiresAt'', Str ''5'')]) ?s
      = Inl (SyntaxError,
             \<lparr>localStorage = [''userInfo'' \<mapsto> ''undefined'', ''expiresAt'' \<mapsto> ''5''],
              authState = \<lparr>token = Null, expiresAt = Null, userInfo = Obj []\<rparr>,
              history = []\<rparr>)"
    using setAuthInfo_then_state
            [where ps = "[(''token'', Str ''abc''), (''userInfo'', Undefined), (''expiresAt'', Str ''5'')]"
               and s = ?s and t = "Str ''abc''" and x = "Str ''5''"]
    by simp
  ultimately show ?thesis
    using props small s'(1,2,3) by (intro conjI exI [of _ s']) simp_all
qed

text \<open>The claim as it was stated, for every triple, fails on a triple whose identity
  is \<^verbatim>\<open>undefined\<close>: the call ends in the \<^verbatim>\<open>SyntaxError\<close> of the render, the storage
  holds the text \<^verbatim>\<open>undefined\<close>, and the state is still the one before.\<close>

theorem setAuthInfo_undefined_identity_counterexample:
  "setAuthInfo
     (Obj [(''token'', Str ''abc''), (''userInfo'', Undefined), (''expiresAt'', Num (Dec 2000000000 0))]) \<lparr>localStorage = Map.empty, authState = \<lparr>token = Null, expiresAt = Null, userInfo = Obj []\<rparr>, history = []\<rparr>
   = Inl (SyntaxError,
          \<lparr>localStorage = [''userInfo'' \<mapsto> ''undefined'', ''expiresAt'' \<mapsto> ''2000000000''],
           authState = \<lparr>token = Null, expiresAt = Null, userInfo = Obj []\<rparr>,
           history = []\<rparr>)"
  by (simp add: setAuthInfo_Obj setAuthState_def render_def AuthProvider_present parse_undefined js_eval)

subsection \<open>Logging out\<close>

text \<open>The render that follows \<^verbatim>\<open>logout\<close> finds no \<^verbatim>\<open>userInfo\<close> in the storage,
  so it parses nothing and cannot throw: it shows the empty state.\<close>

lemma render_logout: "render (logout s) = Inr (authState (logout s))"
  by (simp add: render_def logout_def removeItem_def AuthProvider_absent)

text \<open>
  \<^bold>\<open>C5\<close>. From every state, \<^verbatim>\<open>logout\<close> leaves the empty state (no token, no
  expiry, the empty identity record), removes the keys \<^verbatim>\<open>userInfo\<close> and
  \<^verbatim>\<open>expiresAt\<close> from the storage and pushes \<^verbatim>\<open>/login\<close> on the history. Of all the
  operations of the two providers it is the only one after which the history differs.
\<close>

theorem logout_resets:
  "authState (logout s) = \<lparr>token = Null, expiresAt = Null, userInfo = Obj []\<rparr>
   \<and> localStorage (logout s) = (localStorage s)(''userInfo'' := None, ''expiresAt'' := None)
   \<and> history (logout s) = history s @ [''/login'']
   \<and> (history (fst (exec a x)) \<noteq> history (fst a) \<longrightarrow> x = Logout)"
proof -
  have "history (fst (exec a x)) \<noteq> history (fst a) \<longrightarrow> x = Logout"
    by (cases a; cases x)
      (auto simp: setAuthInfo_def setAuthState_def render_def split: sum.splits)
  then show ?thesis by (simp add: logout_def removeItem_def)
qed

theorem logout_resets_witness:
  "history (fst (exec (\<lparr>localStorage = Map.empty, authState = \<lparr>token = Null, expiresAt = Null, userInfo = Obj []\<rparr>, history = []\<rparr>, FetchProvider) Logout)) \<noteq> history (fst (\<lparr>localStorage = Map.empty, authState = \<lparr>token = Null, expiresAt = Null, userInfo = Obj []\<rparr>, history = []\<rparr>, FetchProvider))
   \<and> history (logout \<lparr>localStorage = Map.empty, authState = \<lparr>token = Null, expiresAt = Null, userInfo = Obj []\<rparr>, history = []\<rparr>) = [''/login'']"
  using logout_resets [where s = "\<lparr>localStorage = Map.empty, authState = \<lparr>token = Null, expiresAt = Null, userInfo = Obj []\<rparr>, history = []\<rparr>" and a = "(\<lparr>localStorage = Map.empty, authState = \<lparr>token = Null, expiresAt = Null, userInfo = Obj []\<rparr>, history = []\<rparr>, FetchProvider)" and x = Logout]
  by simp

text \<open>
  \<^bold>\<open>C10\<close>. A second \<^verbatim>\<open>logout\<close> changes neither the state nor the storage: both are
  what the first one left, the empty state and a storage without \<^verbatim>\<open>userInfo\<close> and
  \<^verbatim>\<open>expiresAt\<close>; the second call only pushes \<^verbatim>\<open>/login\<close> once more. \<^verbatim>\<open>logout\<close>
  has no failing step, in whatever state it is called.
\<close>

theorem logout_idempotent:
  "authState (logout (logout s)) = authState (logout s)
   \<and> localStorage (logout (logout s)) = localStorage (logout s)
   \<and> authState (logout s) = \<lparr>token = Null, expiresAt = Null, userInfo = Obj []\<rparr>
   \<and> localStorage (logout s) ''userInfo'' = None
   \<and> localStorage (logout s) ''expiresAt'' = None
   \<and> logout (logout s) = (logout s)\<lparr>history := history s @ [''/login'', ''/login'']\<rparr>"
  by (simp add: logout_def removeItem_def)

theorem logout_idempotent_witness:
  "authState (logout (logout \<lparr>localStorage = [''userInfo'' \<mapsto> (''{'' @ dq @ ''role'' @ dq @ '':'' @ dq @ ''admin'' @ dq @ ''}''), ''expiresAt'' \<mapsto> ''2000000000''], authState = \<lparr>token = Str ''abc'', expiresAt = Num (Dec 2000000000 0), userInfo = Obj [(''role'', Str ''admin'')]\<rparr>, history = []\<rparr>)) = \<lparr>token = Null, expiresAt = Null, userInfo = Obj []\<rparr>
   \<and> localStorage (logout (logout \<lparr>localStorage = [''userInfo'' \<mapsto> (''{'' @ dq @ ''role'' @ dq @ '':'' @ dq @ ''admin'' @ dq @ ''}''), ''expiresAt'' \<mapsto> ''2000000000''], authState = \<lparr>token = Str ''abc'', expiresAt = Num (Dec 2000000000 0), userInfo = Obj [(''role'', Str ''admin'')]\<rparr>, history = []\<rparr>)) = localStorage (logout \<lparr>localStorage = [''userInfo'' \<mapsto> (''{'' @ dq @ ''role'' @ dq @ '':'' @ dq @ ''admin'' @ dq @ ''}''), ''expiresAt'' \<mapsto> ''2000000000''], authState = \<lparr>token = Str ''abc'', expiresAt = Num (Dec 2000000000 0), userInfo = Obj [(''role'', Str ''admin'')]\<rparr>, history = []\<rparr>)
   \<and> localStorage (logout \<lparr>localStorage = [''userInfo'' \<mapsto> (''{'' @ dq @ ''role'' @ dq @ '':'' @ dq @ ''admin'' @ dq @ ''}''), ''expiresAt'' \<mapsto> ''2000000000''], authState = \<lparr>token = Str ''abc'', expiresAt = Num (Dec 2000000000 0), userInfo = Obj [(''role'', Str ''admin'')]\<rparr>, history = []\<rparr>) ''userInfo'' = None"
  using logout_idempotent [where s = "\<lparr>localStorage = [''userInfo'' \<mapsto> (''{'' @ dq @ ''role'' @ dq @ '':'' @ dq @ ''admin'' @ dq @ ''}''), ''expiresAt'' \<mapsto> ''2000000000''], authState = \<lparr>token = Str ''abc'', expiresAt = Num (Dec 2000000000 0), userInfo = Obj [(''role'', Str ''admin'')]\<rparr>, history = []\<rparr>"]
  by simp

subsection \<open>The two predicates\<close>

lemma seconds_less: "((of_int now :: rat) / 1000 < of_int m) = (now < 1000 * m)"
proof -
  have "((of_int now :: rat) / 1000 < of_int m) = ((of_int now :: rat) < of_int m * 1000)"
    by (simp add: pos_divide_less_eq)
  also have "\<dots> = ((of_int now :: rat) < of_int (1000 * m))" by (simp add: mult.commute)
  also have "\<dots> = (now < 1000 * m)" by (simp only: of_int_less_iff)
  finally show ?thesis .
qed

text \<open>
  \<^bold>\<open>C3\<close>, as amended. \<^verbatim>\<open>isAuthenticated\<close> tests the token and the expiry for
  truthiness, not for absence: it returns false when either is \<^verbatim>\<open>null\<close> or
  \<^verbatim>\<open>undefined\<close>, and also when either is the empty string, \<^verbatim>\<open>0\<close>, \<^verbatim>\<open>NaN\<close> or
  \<^verbatim>\<open>false\<close>. Otherwise it returns true exactly when the clock, in milliseconds,
  divided by 1000 is strictly less than the expiry converted to a number; for a
  non-empty token and a whole number \<open>m\<close> of seconds other than 0 that is
  \<open>now < 1000 * m\<close>.
\<close>

theorem isAuthenticated_truthy:
  "(isAuthenticated now a \<longleftrightarrow>
      ToBoolean (token a) \<and> ToBoolean (expiresAt a)
      \<and> num_less (of_int now / 1000) (ToNumber (expiresAt a)))
   \<and> (token a = Null \<or> token a = Undefined \<or> expiresAt a = Null \<or> expiresAt a = Undefined \<longrightarrow>
        \<not> isAuthenticated now a)
   \<and> (token a = Str [] \<or> token a = Bool False \<or> token a = Num (Dec 0 e) \<or> token a = Num NaN
        \<or> expiresAt a = Str [] \<or> expiresAt a = Bool False \<or> expiresAt a = Num (Dec 0 e)
        \<or> expiresAt a = Num NaN \<longrightarrow>
        \<not> isAuthenticated now a)
   \<and> (token a = Str t \<and> t \<noteq> [] \<and> expiresAt a = Num (Dec m 0) \<and> m \<noteq> 0 \<longrightarrow>
        (isAuthenticated now a \<longleftrightarrow> now < 1000 * m))"
  by (auto simp: isAuthenticated_def dec_val_def seconds_less)

theorem isAuthenticated_truthy_witness:
  "(1700000000000 :: int) < 1000 * 2000000000
   \<and> isAuthenticated 1700000000000
        \<lparr>token = Str ''abc'', expiresAt = Num (Dec 2000000000 0), userInfo = Obj []\<rparr>
   \<and> \<not> isAuthenticated 2000000000000
        \<lparr>token = Str ''abc'', expiresAt = Num (Dec 2000000000 0), userInfo = Obj []\<rparr>
   \<and> \<not> isAuthenticated 1700000000000
        \<lparr>token = Null, expiresAt = Num (Dec 2000000000 0), userInfo = Obj []\<rparr>"
  using isAuthenticated_truthy
          [where now = 1700000000000 and t = "''abc''" and m = 2000000000
             and a = "\<lparr>token = Str ''abc'', expiresAt = Num (Dec 2000000000 0), userInfo = Obj []\<rparr>"]
        isAuthenticated_truthy
          [where now = 2000000000000 and t = "''abc''" and m = 2000000000
             and a = "\<lparr>token = Str ''abc'', expiresAt = Num (Dec 2000000000 0), userInfo = Obj []\<rparr>"]
        isAuthenticated_truthy
          [where now = 1700000000000
             and a = "\<lparr>token = Null, expiresAt = Num (Dec 2000000000 0), userInfo = Obj []\<rparr>"]
  by (simp add: dec_val_def)

text \<open>The claim as it was stated fails on a token that is present and empty: the
  token is neither \<^verbatim>\<open>null\<close> nor \<^verbatim>\<open>undefined\<close>, the expiry lies ahead of the clock,
  and the result is false.\<close>

theorem isAuthenticated_empty_token_counterexample:
  "token \<lparr>token = Str [], expiresAt = Num (Dec 2000000000 0), userInfo = Obj []\<rparr> \<noteq> Null
   \<and> token \<lparr>token = Str [], expiresAt = Num (Dec 2000000000 0), userInfo = Obj []\<rparr> \<noteq> Undefined
   \<and> expiresAt \<lparr>token = Str [], expiresAt = Num (Dec 2000000000 0), userInfo = Obj []\<rparr> \<noteq> Null
   \<and> expiresAt \<lparr>token = Str [], expiresAt = Num (Dec 2000000000 0), userInfo = Obj []\<rparr> \<noteq> Undefined
   \<and> num_less (of_int 1700000000000 / 1000) (ToNumber (Num (Dec 2000000000 0)))
   \<and> \<not> isAuthenticated 1700000000000
         \<lparr>token = Str [], expiresAt = Num (Dec 2000000000 0), userInfo = Obj []\<rparr>"
  by (simp add: isAuthenticated_def dec_val_def)

text \<open>
  \<^bold>\<open>C7\<close>. On an identity record, \<^verbatim>\<open>isAdmin\<close> returns true exactly when the record
  has a property \<^verbatim>\<open>role\<close> whose value is the string \<^verbatim>\<open>admin\<close>: it is false on the
  empty record, on a record without \<^verbatim>\<open>role\<close> and on every other value of
  \<^verbatim>\<open>role\<close>.
\<close>

theorem isAdmin_iff_role:
  "isAdmin (a\<lparr>userInfo := Obj ps\<rparr>) = Inr (map_of ps ''role'' = Some (Str ''admin''))
   \<and> isAdmin (a\<lparr>userInfo := Obj []\<rparr>) = Inr False
   \<and> (map_of ps ''role'' = None \<longrightarrow> isAdmin (a\<lparr>userInfo := Obj ps\<rparr>) = Inr False)
   \<and> (map_of ps ''role'' = Some r \<and> r \<noteq> Str ''admin'' \<longrightarrow> isAdmin (a\<lparr>userInfo := Obj ps\<rparr>) = Inr False)"
  by (auto simp: isAdmin_def split: option.splits)

theorem isAdmin_iff_role_witness:
  "isAdmin \<lparr>token = Null, expiresAt = Null, userInfo = Obj [(''role'', Str ''admin'')]\<rparr> = Inr True
   \<and> isAdmin \<lparr>token = Null, expiresAt = Null, userInfo = Obj [(''role'', Str ''user'')]\<rparr> = Inr False
   \<and> isAdmin \<lparr>token = Null, expiresAt = Null, userInfo = Obj [(''name'', Str ''admin'')]\<rparr> = Inr False"
  using isAdmin_iff_role
          [where a = "\<lparr>token = Null, expiresAt = Null, userInfo = Obj []\<rparr>"
             and ps = "[(''role'', Str ''admin'')]"]
        isAdmin_iff_role
          [where a = "\<lparr>token = Null, expiresAt = Null, userInfo = Obj []\<rparr>"
             and ps = "[(''role'', Str ''user'')]" and r = "Str ''user''"]
        isAdmin_iff_role
          [where a = "\<lparr>token = Null, expiresAt = Null, userInfo = Obj []\<rparr>"
             and ps = "[(''name'', Str ''admin'')]"]
  by simp

text \<open>
  \<^bold>\<open>C9\<close>. Whatever the storage holds, a state built from it at start has the token
  \<^verbatim>\<open>null\<close>, and \<^verbatim>\<open>isAuthenticated\<close> is false on it at every time, also when the
  stored expiry lies ahead of the clock. A storage without \<^verbatim>\<open>userInfo\<close> always
  gives such a state, with the stored expiry in it.
\<close>

theorem hydrated_not_authenticated:
  "(AuthProvider st = Inr a \<longrightarrow> token a = Null \<and> \<not> isAuthenticated now a)
   \<and> (st ''userInfo'' = None \<longrightarrow>
        (\<exists>a'. AuthProvider st = Inr a' \<and> expiresAt a' = getItem st ''expiresAt''
              \<and> token a' = Null \<and> \<not> isAuthenticated now a'))"
  by (auto simp: isAuthenticated_def AuthProvider_absent dest: AuthProvider_token)

theorem hydrated_not_authenticated_witness:
  "AuthProvider [''expiresAt'' \<mapsto> ''1000000000'']
     = Inr \<lparr>token = Null, expiresAt = Str ''1000000000'', userInfo = Obj []\<rparr>
   \<and> num_less (of_int 0 / 1000) (ToNumber (Str ''1000000000''))
   \<and> \<not> isAuthenticated 0 \<lparr>token = Null, expiresAt = Str ''1000000000'', userInfo = Obj []\<rparr>"
  using hydrated_not_authenticated
          [where st = "[''expiresAt'' \<mapsto> ''1000000000'']" and now = 0
             and a = "\<lparr>token = Null, expiresAt = Str ''1000000000'', userInfo = Obj []\<rparr>"]
  by (auto simp: AuthProvider_absent getItem_def js_eval)

subsection \<open>The token and the storage\<close>

lemma setAuthInfo_storage:
  "localStorage (case setAuthInfo a s of Inl (e, s') \<Rightarrow> s' | Inr s' \<Rightarrow> s') =
     (case get_property a ''userInfo'' of
        Inl e \<Rightarrow> localStorage s
      | Inr u \<Rightarrow>
          (case get_property a ''expiresAt'' of
             Inl e \<Rightarrow> localStorage s
           | Inr x \<Rightarrow>
               (localStorage s)(''userInfo'' \<mapsto> ToString (JSON_stringify u), ''expiresAt'' \<mapsto> ToString x)))"
  by (cases a)
    (simp_all add: setAuthInfo_def setItem_def setAuthState_def render_def split: sum.splits)

lemma setAuthInfo_storage_cong:
  "get_property u ''userInfo'' = get_property v ''userInfo'' \<Longrightarrow>
   get_property u ''expiresAt'' = get_property v ''expiresAt'' \<Longrightarrow>
   localStorage s = localStorage s' \<Longrightarrow>
   localStorage (case setAuthInfo u s of Inl (e, t) \<Rightarrow> t | Inr t \<Rightarrow> t)
   = localStorage (case setAuthInfo v s' of Inl (e, t) \<Rightarrow> t | Inr t \<Rightarrow> t)"
  by (simp add: setAuthInfo_storage split: sum.splits)

lemma exec_SetAuthInfo_storage:
  "localStorage (fst (exec (s, g) (SetAuthInfo u)))
   = localStorage (case setAuthInfo u s of Inl (e, t) \<Rightarrow> t | Inr t \<Rightarrow> t)"
  by (simp split: sum.splits prod.splits)

lemma exec_storage:
  assumes "same_but_token x y" and "localStorage (fst a) = localStorage (fst b)"
  shows "localStorage (fst (exec a x)) = localStorage (fst (exec b y))"
proof (cases x)
  case (SetAuthInfo u)
  then obtain v where y: "y = SetAuthInfo v"
    using assms(1) by (cases y) auto
  have eq: "get_property u ''userInfo'' = get_property v ''userInfo''"
           "get_property u ''expiresAt'' = get_property v ''expiresAt''"
    using assms(1) SetAuthInfo y by auto
  obtain s g where a: "a = (s, g)" by (cases a)
  obtain s' g' where b: "b = (s', g')" by (cases b)
  have "localStorage s = localStorage s'" using assms(2) by (simp add: a b)
  with eq show ?thesis
    unfolding a b SetAuthInfo y exec_SetAuthInfo_storage
    by (rule setAuthInfo_storage_cong)
next
  case Logout
  then show ?thesis using assms by (cases a; cases b) (auto simp: logout_def)
next
  case (IsAuthenticated n)
  then show ?thesis using assms by (cases a; cases b) auto
next
  case IsAdmin
  then show ?thesis using assms by (cases a; cases b) auto
next
  case (Gateway ev)
  then show ?thesis using assms by (cases a; cases b) auto
qed

lemma run_storage:
  "list_all2 same_but_token ops ops' \<Longrightarrow> localStorage (fst a) = localStorage (fst b) \<Longrightarrow>
   localStorage (fst (run a ops)) = localStorage (fst (run b ops'))"
proof (induction ops arbitrary: ops' a b)
  case Nil
  then show ?case by (simp add: run_def)
next
  case (Cons x xs)
  then obtain y ys where ops': "ops' = y # ys" "same_but_token x y" "list_all2 same_but_token xs ys"
    by (auto simp: list_all2_Cons1)
  have "localStorage (fst (exec a x)) = localStorage (fst (exec b y))"
    using ops'(2) Cons.prems(2) by (rule exec_storage)
  with Cons.IH[OF ops'(3)] show ?case
    by (simp add: run_def ops'(1))
qed

lemma exec_other_keys:
  "k \<noteq> ''userInfo'' \<Longrightarrow> k \<noteq> ''expiresAt'' \<Longrightarrow>
   localStorage (fst (exec a x)) k = localStorage (fst a) k"
proof (cases x)
  case (SetAuthInfo u)
  assume k: "k \<noteq> ''userInfo''" "k \<noteq> ''expiresAt''"
  obtain s g where a: "a = (s, g)" by (cases a)
  show ?thesis
    unfolding a SetAuthInfo exec_SetAuthInfo_storage setAuthInfo_storage
    using k by (simp split: sum.splits)
qed (cases a; simp add: logout_def removeItem_def)+

lemma run_other_keys:
  "k \<noteq> ''userInfo'' \<Longrightarrow> k \<noteq> ''expiresAt'' \<Longrightarrow>
   localStorage (fst (run a ops)) k = localStorage (fst a) k"
  by (induction ops arbitrary: a) (simp_all add: run_def exec_other_keys)


lemma run_dom:
  assumes "dom (localStorage (fst a)) \<subseteq> {''userInfo'', ''expiresAt''}"
  shows "dom (localStorage (fst (run a ops))) \<subseteq> {''userInfo'', ''expiresAt''}"
proof
  fix k
  assume k: "k \<in> dom (localStorage (fst (run a ops)))"
  show "k \<in> {''userInfo'', ''expiresAt''}"
  proof (rule ccontr)
    assume "k \<notin> {''userInfo'', ''expiresAt''}"
    then have other: "k \<noteq> ''userInfo''" "k \<noteq> ''expiresAt''" by simp_all
    then have "localStorage (fst (run a ops)) k = localStorage (fst a) k"
      by (rule run_other_keys)
    with k have "k \<in> dom (localStorage (fst a))" by (simp add: dom_def)
    with assms other show False by blast
  qed
qed

text \<open>
  \<^bold>\<open>C6\<close>. No operation writes the token to the storage. Two runs of operations that
  differ only in the tokens given to \<^verbatim>\<open>setAuthInfo\<close>, from states with the same
  storage, end with the same storage; no run changes a key other than \<^verbatim>\<open>userInfo\<close>
  and \<^verbatim>\<open>expiresAt\<close>, so none creates a key \<^verbatim>\<open>token\<close>, and a storage that holds
  these two keys at most does so in every state reached; and the initial state
  depends on the storage through these two keys only.
\<close>

theorem token_never_stored:
  "(list_all2 same_but_token ops ops' \<and> localStorage (fst a) = localStorage (fst b) \<longrightarrow>
      localStorage (fst (run a ops)) = localStorage (fst (run b ops')))
   \<and> (k \<noteq> ''userInfo'' \<and> k \<noteq> ''expiresAt'' \<longrightarrow>
        localStorage (fst (run a ops)) k = localStorage (fst a) k)
   \<and> localStorage (fst (run a ops)) ''token'' = localStorage (fst a) ''token''
   \<and> (dom (localStorage (fst a)) \<subseteq> {''userInfo'', ''expiresAt''} \<longrightarrow>
        dom (localStorage (fst (run a ops))) \<subseteq> {''userInfo'', ''expiresAt''})
   \<and> (st ''userInfo'' = st' ''userInfo'' \<and> st ''expiresAt'' = st' ''expiresAt'' \<longrightarrow>
        AuthProvider st = AuthProvider st')"
  using run_storage [of ops ops' a b] run_other_keys [of k a ops]
    run_other_keys [of "''token''" a ops] run_dom [of a ops] AuthProvider_reads [of st st']
  by simp

theorem token_never_stored_witness:
  "list_all2 same_but_token
     [SetAuthInfo (Obj [(''token'', Str ''abc''), (''userInfo'', Obj []), (''expiresAt'', Str ''5'')]), Logout]
     [SetAuthInfo (Obj [(''token'', Str ''xyz''), (''userInfo'', Obj []), (''expiresAt'', Str ''5'')]), Logout]
   \<and> localStorage (fst (run (\<lparr>localStorage = Map.empty, authState = \<lparr>token = Null, expiresAt = Null, userInfo = Obj []\<rparr>, history = []\<rparr>, FetchProvider)
        [SetAuthInfo (Obj [(''token'', Str ''abc''), (''userInfo'', Obj []), (''expiresAt'', Str ''5'')]), Logout]))
     = localStorage (fst (run (\<lparr>localStorage = Map.empty, authState = \<lparr>token = Null, expiresAt = Null, userInfo = Obj []\<rparr>, history = []\<rparr>, FetchProvider)
        [SetAuthInfo (Obj [(''token'', Str ''xyz''), (''userInfo'', Obj []), (''expiresAt'', Str ''5'')]), Logout]))
   \<and> localStorage (fst (run (\<lparr>localStorage = Map.empty, authState = \<lparr>token = Null, expiresAt = Null, userInfo = Obj []\<rparr>, history = []\<rparr>, FetchProvider)
        [SetAuthInfo (Obj [(''token'', Str ''abc''), (''userInfo'', Obj []), (''expiresAt'', Str ''5'')])])) ''token''
     = None
   \<and> AuthProvider [''token'' \<mapsto> ''abc'', ''expiresAt'' \<mapsto> ''5''] = AuthProvider [''expiresAt'' \<mapsto> ''5'']"
  using token_never_stored
          [where ops = "[SetAuthInfo (Obj [(''token'', Str ''abc''), (''userInfo'', Obj []), (''expiresAt'', Str ''5'')]), Logout]"
             and ops' = "[SetAuthInfo (Obj [(''token'', Str ''xyz''), (''userInfo'', Obj []), (''expiresAt'', Str ''5'')]), Logout]"
             and a = "(\<lparr>localStorage = Map.empty, authState = \<lparr>token = Null, expiresAt = Null, userInfo = Obj []\<rparr>, history = []\<rparr>, FetchProvider)" and b = "(\<lparr>localStorage = Map.empty, authState = \<lparr>token = Null, expiresAt = Null, userInfo = Obj []\<rparr>, history = []\<rparr>, FetchProvider)"
             and st = "[''token'' \<mapsto> ''abc'', ''expiresAt'' \<mapsto> ''5'']"
             and st' = "[''expiresAt'' \<mapsto> ''5'']"]
        token_never_stored
          [where ops = "[SetAuthInfo (Obj [(''token'', Str ''abc''), (''userInfo'', Obj []), (''expiresAt'', Str ''5'')])]"
             and a = "(\<lparr>localStorage = Map.empty, authState = \<lparr>token = Null, expiresAt = Null, userInfo = Obj []\<rparr>, history = []\<rparr>, FetchProvider)"]
  by simp

subsection \<open>The CSRF handshake\<close>

lemma request_fields:
  "headers (request m u g) = headers g"
  "awaiting (request m u g) = awaiting g"
  "csrf_calls (request m u g) = csrf_calls g"
  "sent (request m u g) = sent g @ [(m, u, headers g ''X-CSRF-Token'')]"
  by (simp_all add: request_def)

lemma foldl_step_calls: "csrf_calls (foldl gateway_step g evs) = csrf_calls g"
proof (induction evs arbitrary: g)
  case Nil
  show ?case by simp
next
  case (Cons ev evs)
  show ?case by (cases ev) (simp_all add: Cons.IH request_fields getCsrfToken_resume_def)
qed

lemma foldl_step_idle:
  "\<not> awaiting g \<Longrightarrow> headers (foldl gateway_step g evs) = headers g"
proof (induction evs arbitrary: g)
  case Nil
  show ?case by simp
next
  case (Cons ev evs)
  then show ?case by (cases ev) (simp_all add: request_fields)
qed

lemma foldl_step_awaiting:
  "awaiting g \<Longrightarrow>
   headers (foldl gateway_step g evs) =
     (case outcome evs of
        Some (Fulfilled t) \<Rightarrow> (headers g)(''X-CSRF-Token'' \<mapsto> t)
      | _ \<Rightarrow> headers g)"
proof (induction evs arbitrary: g)
  case Nil
  show ?case by simp
next
  case (Cons ev evs)
  show ?case
  proof (cases ev)
    case (Request m u)
    have "awaiting (request m u g)" using Cons.prems by (simp add: request_fields)
    from Cons.IH[OF this] show ?thesis
      by (simp add: Request request_fields split: option.splits event.splits)
  next
    case (Fulfilled t)
    then show ?thesis using Cons.prems
      by (simp add: foldl_step_idle getCsrfToken_resume_def)
  next
    case Failed
    then show ?thesis using Cons.prems by (simp add: foldl_step_idle)
  qed
qed

lemma foldl_step_sent: "\<exists>rest. sent (foldl gateway_step g evs) = sent g @ rest"
proof (induction evs arbitrary: g)
  case Nil
  show ?case by simp
next
  case (Cons ev evs)
  obtain rest where "sent (foldl gateway_step (gateway_step g ev) evs) = sent (gateway_step g ev) @ rest"
    using Cons.IH by blast
  then show ?case by (cases ev) (simp_all add: request_fields getCsrfToken_resume_def)
qed

lemma FetchProvider_fields:
  "headers FetchProvider = Map.empty"
  "awaiting FetchProvider"
  "csrf_calls FetchProvider = 1"
  "sent FetchProvider = [(''GET'', ''/csrf-token'', None)]"
  by (simp_all add: FetchProvider_def getCsrfToken_def axios_create_def request_def)

text \<open>
  \<^bold>\<open>C8\<close>. Over every sequence of events in the life of the gateway, \<^verbatim>\<open>getCsrfToken\<close>
  has been called once, and its request is the first one sent, without the header. A
  request made while the handshake has not settled leaves at once and carries no
  \<^verbatim>\<open>X-CSRF-Token\<close> header; once the handshake has been fulfilled with a token, every
  request carries that token; once it has failed, the header stays unset and nothing
  calls \<^verbatim>\<open>getCsrfToken\<close> again.
\<close>

theorem csrf_handshake_once:
  "csrf_calls (gateway_run evs) = 1
   \<and> hd (sent (gateway_run evs)) = (''GET'', ''/csrf-token'', None)
   \<and> (outcome evs = None \<longrightarrow>
        sent (gateway_run (evs @ [Request verb url])) = sent (gateway_run evs) @ [(verb, url, None)])
   \<and> (outcome evs = Some (Fulfilled t) \<longrightarrow>
        sent (gateway_run (evs @ [Request verb url])) = sent (gateway_run evs) @ [(verb, url, Some t)])
   \<and> (outcome evs = Some Failed \<longrightarrow>
        sent (gateway_run (evs @ [Request verb url])) = sent (gateway_run evs) @ [(verb, url, None)])"
proof -
  have calls: "csrf_calls (gateway_run evs) = 1"
    by (simp add: gateway_run_def foldl_step_calls FetchProvider_fields)
  obtain rest where "sent (gateway_run evs) = sent FetchProvider @ rest"
    unfolding gateway_run_def using foldl_step_sent by blast
  then have first: "hd (sent (gateway_run evs)) = (''GET'', ''/csrf-token'', None)"
    by (simp add: FetchProvider_fields)
  have hdr: "headers (gateway_run evs) ''X-CSRF-Token'' =
       (case outcome evs of Some (Fulfilled t) \<Rightarrow> Some t | _ \<Rightarrow> None)"
    by (simp add: gateway_run_def foldl_step_awaiting FetchProvider_fields
        split: option.splits event.splits)
  have req: "sent (gateway_run (evs @ [Request verb url])) =
       sent (gateway_run evs) @ [(verb, url, headers (gateway_run evs) ''X-CSRF-Token'')]"
    by (simp add: gateway_run_def request_fields)
  from calls first show ?thesis
    by (simp add: req hdr)
qed

theorem csrf_handshake_once_witness:
  "outcome [Request ''POST'' ''/users''] = None
   \<and> outcome [Request ''POST'' ''/users'', Fulfilled ''abc''] = Some (Fulfilled ''abc'')
   \<and> outcome [Failed, Fulfilled ''abc''] = Some Failed
   \<and> sent (gateway_run [Request ''POST'' ''/users'', Request ''POST'' ''/users''])
       = [(''GET'', ''/csrf-token'', None), (''POST'', ''/users'', None), (''POST'', ''/users'', None)]
   \<and> sent (gateway_run [Request ''POST'' ''/users'', Fulfilled ''abc'', Request ''POST'' ''/users''])
       = [(''GET'', ''/csrf-token'', None), (''POST'', ''/users'', None), (''POST'', ''/users'', Some ''abc'')]
   \<and> sent (gateway_run [Failed, Fulfilled ''abc'', Request ''POST'' ''/users''])
       = [(''GET'', ''/csrf-token'', None), (''POST'', ''/users'', None)]
   \<and> csrf_calls (gateway_run [Failed, Fulfilled ''abc'', Request ''POST'' ''/users'']) = 1"
  using csrf_handshake_once
          [where evs = "[Request ''POST'' ''/users'']" and verb = "''POST''" and url = "''/users''"]
        csrf_handshake_once
          [where evs = "[Request ''POST'' ''/users'', Fulfilled ''abc'']" and t = "''abc''"
             and verb = "''POST''" and url = "''/users''"]
        csrf_handshake_once
          [where evs = "[Failed, Fulfilled ''abc'']" and verb = "''POST''" and url = "''/users''"]
        csrf_handshake_once
          [where evs = "[Failed, Fulfilled ''abc'', Request ''POST'' ''/users'']"]
  by (simp add: gateway_run_def FetchProvider_fields request_fields getCsrfToken_resume_def)

subsection \<open>A session from login to logout\<close>

text \<open>An administrator logs in at the time 1700000000 with an hour to go, and logs
  out: authenticated and administrator after the first step, neither after the
  second, and the storage is empty again.\<close>

lemma login_then_logout:
  "\<exists>s. setAuthInfo
         (Obj [(''token'', Str ''abc''), (''userInfo'', Obj [(''role'', Str ''admin'')]),
               (''expiresAt'', Num (Dec 1700003600 0))]) \<lparr>localStorage = Map.empty, authState = \<lparr>token = Null, expiresAt = Null, userInfo = Obj []\<rparr>, history = []\<rparr> = Inr s
     \<and> isAuthenticated 1700000000000 (authState s) \<and> isAdmin (authState s) = Inr True
     \<and> \<not> isAuthenticated 1700000000000 (authState (logout s))
     \<and> isAdmin (authState (logout s)) = Inr False
     \<and> localStorage (logout s) = Map.empty"
proof -
  have "field [(''token'', Str ''abc''), (''userInfo'', Obj [(''role'', Str ''admin'')]),
               (''expiresAt'', Num (Dec 1700003600 0))] ''userInfo'' \<noteq> Undefined"
    by simp
  from setAuthInfo_defined [OF this, of "\<lparr>localStorage = Map.empty, authState = \<lparr>token = Null, expiresAt = Null, userInfo = Obj []\<rparr>, history = []\<rparr>"]
  show ?thesis
    by (auto simp: isAuthenticated_def isAdmin_def logout_def removeItem_def dec_val_def)
qed

end
